theory Spec2Isabelle
  imports Complex_Main "HOL-Library.Multiset"
begin

section \<open>Creator Dashboard: credit ledger, content pipeline and feed service\<close>

text \<open>
  The development embeds the Mongoose models and the service classes of the backend:
  \<^item> \<^verbatim>\<open>models/credit.model.js\<close>, \<^verbatim>\<open>services/credit.service.js\<close> and
    \<^verbatim>\<open>AuthService.handleDailyLoginReward\<close> (the credit ledger);
  \<^item> \<^verbatim>\<open>models/content.model.js\<close>, \<^verbatim>\<open>RedditService\<close> and \<^verbatim>\<open>TwitterService\<close>
    (the ingestion pipeline);
  \<^item> \<^verbatim>\<open>FeedService\<close> with \<^verbatim>\<open>models/savedContent.model.js\<close> and
    \<^verbatim>\<open>models/report.model.js\<close>.

  Conventions. A Mongo \<^verbatim>\<open>ObjectId\<close> is a natural number. A JavaScript \<^verbatim>\<open>Date\<close> is
  its number of milliseconds since the epoch, and the clock (\<^verbatim>\<open>new Date()\<close>,
  \<^verbatim>\<open>Date.now()\<close>) is an argument of the method that reads it, one reading for all of
  one call.
  Clock readings and timestamps lie in the range of \<^verbatim>\<open>Date\<close>, where the arithmetic on
  them is exact. The other numbers are integer-valued doubles, embedded in \<open>int\<close> with
  the rounding of the source written out (next subsection). An \<^verbatim>\<open>async\<close>
  method that may throw returns \<open>error + 'a\<close> together with the database it leaves
  behind, because the writes made before a \<^verbatim>\<open>throw\<close> stay in the store. The store itself
  is reliable: a read or write fails only where a schema validator or a unique index
  rejects it.
\<close>

type_synonym object_id = nat
type_synonym date = int

datatype error =
    Error string
  | ValidationError string
  | MongoServerError string

subsection \<open>JavaScript numbers\<close>

text \<open>
  A JavaScript number is a double: 53 significant bits. \<open>round_double n\<close> is the double
  nearest to the integer \<open>n\<close>, a tie going to the even significand; \<open>excess_bits\<close>
  counts the low bits that the significand cannot hold. Up to \<open>2^53\<close> in magnitude
  every integer is its own double. \<^verbatim>\<open>a + b\<close>, \<^verbatim>\<open>a - b\<close> and \<^verbatim>\<open>a * b\<close> give the double
  nearest to the exact result. Magnitudes from \<open>2^1024\<close> on, where a double is
  \<^verbatim>\<open>Infinity\<close>, are outside the embedding.
\<close>

function excess_bits :: "int \<Rightarrow> nat" where
  "excess_bits m = (if m < 2 ^ 53 then 0 else Suc (excess_bits (m div 2)))"
  by pat_completeness auto
termination
  by (relation "measure nat") auto

declare excess_bits.simps [simp del]

definition round_double :: "int \<Rightarrow> int" where
  "round_double n =
     (let m = \<bar>n\<bar>;
          k = excess_bits m;
          q = m div 2 ^ k;
          r = m mod 2 ^ k;
          q' = (if 2 * r > 2 ^ k \<or> (2 * r = 2 ^ k \<and> odd q) then q + 1 else q)
      in sgn n * (q' * 2 ^ k))"

definition js_add :: "int \<Rightarrow> int \<Rightarrow> int" where
  "js_add a b = round_double (a + b)"

definition js_sub :: "int \<Rightarrow> int \<Rightarrow> int" where
  "js_sub a b = round_double (a - b)"

definition js_mul :: "int \<Rightarrow> int \<Rightarrow> int" where
  "js_mul a b = round_double (a * b)"

text \<open>
  \<^verbatim>\<open>parseInt(x)\<close> of a number \<open>x\<close> reads the string \<^verbatim>\<open>String(x)\<close>. For an integer
  below \<open>10^21\<close> in magnitude that string is its decimal expansion, and \<^verbatim>\<open>parseInt\<close>
  gives \<open>x\<close> back. From \<open>10^21\<close> on it is the exponent form \<^verbatim>\<open>d.ddde+n\<close> with the
  fewest digits that read back as \<open>x\<close>, of which \<^verbatim>\<open>parseInt\<close> reads the leading digit
  and stops: \<^verbatim>\<open>parseInt(1e21)\<close> is \<open>1\<close>. \<open>digit_candidates m\<close> lists, for 1, 2, ...
  digits, the two neighbours of \<open>m\<close> with that many digits followed by zeros.
\<close>

function first_digit :: "int \<Rightarrow> int" where
  "first_digit m = (if m < 10 then m else first_digit (m div 10))"
  by pat_completeness auto
termination
  by (relation "measure nat") auto

function decimal_length :: "int \<Rightarrow> nat" where
  "decimal_length m = (if m < 10 then 1 else Suc (decimal_length (m div 10)))"
  by pat_completeness auto
termination
  by (relation "measure nat") auto

declare first_digit.simps [simp del] decimal_length.simps [simp del]

definition digit_candidates :: "int \<Rightarrow> int list" where
  "digit_candidates m =
     concat (map (\<lambda>k. let p = 10 ^ (decimal_length m - k); lo = (m div p) * p in [lo, lo + p])
                 [1..<Suc (decimal_length m)])"

definition toString_first_digit :: "int \<Rightarrow> int" where
  "toString_first_digit m =
     (case find (\<lambda>c. round_double c = m) (digit_candidates m) of
        None \<Rightarrow> first_digit m
      | Some c \<Rightarrow> first_digit c)"

definition parseInt :: "int \<Rightarrow> int" where
  "parseInt n = (if \<bar>n\<bar> < 10 ^ 21 then n else sgn n * toString_first_digit \<bar>n\<bar>)"

subsection \<open>Data model\<close>

text \<open>\<^verbatim>\<open>creditTransactionSchema\<close>. The unvalidated \<^verbatim>\<open>metadata\<close> bag is left out.\<close>

record credit_transaction =
  tx_user :: object_id
  tx_type :: string
  tx_amount :: int
  tx_balance :: int
  tx_description :: string
  tx_category :: string
  tx_createdAt :: date

text \<open>
  \<^verbatim>\<open>creditBalanceSchema\<close>. The field \<^verbatim>\<open>user\<close> carries a unique index, so the collection
  is a map from the user to the rest of the document.
\<close>

record credit_balance =
  balance :: int
  totalEarned :: int
  totalSpent :: int
  lastDailyLoginReward :: "date option"
  lastUpdated :: date

text \<open>What the services hand to \<^verbatim>\<open>NotificationService.createNotification\<close>
  (message text, priority and related entity are presentation data and left out).\<close>

record notification =
  n_user :: object_id
  n_type :: string
  n_title :: string

text \<open>The \<^verbatim>\<open>engagement\<close> sub-document of \<^verbatim>\<open>contentSchema\<close>.\<close>

record engagement =
  likes :: int
  comments :: int
  shares :: int
  totalEngagement :: int

text \<open>
  A normalized content object, as the two normalizers build it, and the stored document
  it becomes: the object plus \<^verbatim>\<open>_id\<close> and the moderation flag. The media lists,
  \<^verbatim>\<open>htmlContent\<close>, \<^verbatim>\<open>sourceProfileImage\<close> and \<^verbatim>\<open>metadata\<close> are neither validated nor
  read by any operation below and are left out.
\<close>

record content_obj =
  source :: string
  sourceId :: string
  sourceUsername :: string
  sourceName :: string
  contentType :: string
  title :: "string option"
  text_body :: string
  categories :: "string list"
  url :: string
  engagement :: engagement
  contentCreatedAt :: date
  cacheExpiration :: date

record content = content_obj +
  c_id :: object_id
  isInappropriate :: bool

text \<open>\<^verbatim>\<open>savedContentSchema\<close> and \<^verbatim>\<open>reportSchema\<close>.\<close>

record saved_content =
  sc_user :: object_id
  sc_content :: object_id
  sc_folder :: string
  sc_tags :: "string list"
  sc_notes :: string
  sc_savedAt :: date

record report =
  r_reporter :: object_id
  r_content :: object_id
  r_reason :: "string option"
  r_description :: "string option"
  r_status :: string
  r_actionTaken :: string

text \<open>The part of \<^verbatim>\<open>userSchema\<close> that the feed reads: \<^verbatim>\<open>preferences.contentSources\<close>
  and \<^verbatim>\<open>preferences.contentCategories\<close>.\<close>

record user =
  pref_twitter :: bool
  pref_reddit :: bool
  pref_linkedin :: bool
  pref_contentCategories :: "string list"

text \<open>The database: one field per collection. Lists are in insertion order.\<close>

record db =
  creditBalances :: "object_id \<rightharpoonup> credit_balance"
  creditTransactions :: "credit_transaction list"
  notifications :: "notification list"
  contents :: "content list"
  savedContents :: "saved_content list"
  reports :: "report list"
  users :: "object_id \<rightharpoonup> user"

definition empty_db :: db where
  "empty_db = \<lparr>creditBalances = Map.empty, creditTransactions = [], notifications = [],
     contents = [], savedContents = [], reports = [], users = Map.empty\<rparr>"

subsection \<open>Notification sink\<close>

text \<open>
  Modelled from the spec: \<^verbatim>\<open>models/notification.model.js\<close> with the static
  \<^verbatim>\<open>Notification.createNotification\<close> is not among the sources. Section 6 of the
  specification gives the sink as \<^verbatim>\<open>notify(userId, {...}) -> void\<close>, accepting every
  notification; \<^verbatim>\<open>NotificationService.createNotification\<close> stores it, and its additional
  delivery step catches its own errors.
\<close>

definition createNotification :: "notification \<Rightarrow> db \<Rightarrow> db" where
  "createNotification n d = d\<lparr>notifications := notifications d @ [n]\<rparr>"

subsection \<open>Credit model: \<^verbatim>\<open>credit.model.js\<close>\<close>

definition transaction_types :: "string list" where
  "transaction_types = [''earn'', ''spend'', ''adjustment'']"

definition transaction_categories :: "string list" where
  "transaction_categories =
     [''daily_login'', ''profile_completion'', ''content_interaction'', ''special_event'',
      ''admin_adjustment'', ''feature_usage'', ''other'']"

text \<open>
  The validators of \<^verbatim>\<open>creditTransactionSchema\<close> that can reject a document built by the
  methods below: the two enums, and \<^verbatim>\<open>required\<close> on the string \<^verbatim>\<open>description\<close>, which
  Mongoose fails for the empty string.
\<close>

definition validate_transaction :: "credit_transaction \<Rightarrow> bool" where
  "validate_transaction t \<longleftrightarrow>
     tx_type t \<in> set transaction_types \<and>
     tx_description t \<noteq> [] \<and>
     tx_category t \<in> set transaction_categories"

text \<open>\<^verbatim>\<open>transaction.save()\<close>.\<close>

definition save_transaction :: "credit_transaction \<Rightarrow> db \<Rightarrow> (error + credit_transaction) \<times> db" where
  "save_transaction t d =
     (if validate_transaction t
      then (Inr t, d\<lparr>creditTransactions := creditTransactions d @ [t]\<rparr>)
      else (Inl (ValidationError ''CreditTransaction validation failed''), d))"

text \<open>\<^verbatim>\<open>this.save()\<close> on a balance document of user \<open>u\<close>.\<close>

definition save_balance :: "object_id \<Rightarrow> credit_balance \<Rightarrow> db \<Rightarrow> db" where
  "save_balance u b d = d\<lparr>creditBalances := (creditBalances d)(u \<mapsto> b)\<rparr>"

text \<open>\<^verbatim>\<open>CreditBalance.create({ user: userId, balance: 0 })\<close>, with the schema defaults.\<close>

definition create_balance :: "object_id \<Rightarrow> date \<Rightarrow> db \<Rightarrow> credit_balance \<times> db" where
  "create_balance u now d =
     (let b = \<lparr>balance = 0, totalEarned = 0, totalSpent = 0,
                lastDailyLoginReward = None, lastUpdated = now\<rparr>
      in (b, save_balance u b d))"

text \<open>
  The three methods of \<^verbatim>\<open>creditBalanceSchema\<close>. Each takes the document \<open>this\<close> of user
  \<open>u\<close> and returns the outcome of \<^verbatim>\<open>transaction.save()\<close>, the document as mutated in
  memory, and the database. The balance is saved before the transaction is built, so a
  rejected transaction leaves the new balance in the store.
\<close>

definition cb_addCredits ::
  "object_id \<Rightarrow> credit_balance \<Rightarrow> int \<Rightarrow> string \<Rightarrow> string \<Rightarrow> date \<Rightarrow> db
     \<Rightarrow> (error + credit_transaction) \<times> credit_balance \<times> db" where
  "cb_addCredits u this amount category description now d =
     (let this1 = this\<lparr>balance := js_add (balance this) amount,
                        totalEarned := js_add (totalEarned this) amount,
                        lastUpdated := now\<rparr>;
          this2 = (if category = ''daily_login''
                   then this1\<lparr>lastDailyLoginReward := Some now\<rparr> else this1);
          d1 = save_balance u this2 d;
          (r, d2) = save_transaction
             \<lparr>tx_user = u, tx_type = ''earn'', tx_amount = amount, tx_balance = balance this2,
              tx_description = description, tx_category = category, tx_createdAt = now\<rparr> d1
      in (r, this2, d2))"

definition cb_deductCredits ::
  "object_id \<Rightarrow> credit_balance \<Rightarrow> int \<Rightarrow> string \<Rightarrow> string \<Rightarrow> date \<Rightarrow> db
     \<Rightarrow> (error + credit_transaction) \<times> credit_balance \<times> db" where
  "cb_deductCredits u this amount category description now d =
     (if balance this < amount then (Inl (Error ''Insufficient credits''), this, d)
      else
        let this1 = this\<lparr>balance := js_sub (balance this) amount,
                          totalSpent := js_add (totalSpent this) amount,
                          lastUpdated := now\<rparr>;
            d1 = save_balance u this1 d;
            (r, d2) = save_transaction
               \<lparr>tx_user = u, tx_type = ''spend'', tx_amount = - amount, tx_balance = balance this1,
                tx_description = description, tx_category = category, tx_createdAt = now\<rparr> d1
        in (r, this1, d2))"

definition cb_adjustCredits ::
  "object_id \<Rightarrow> credit_balance \<Rightarrow> int \<Rightarrow> string \<Rightarrow> date \<Rightarrow> db
     \<Rightarrow> (error + credit_transaction) \<times> credit_balance \<times> db" where
  "cb_adjustCredits u this amount description now d =
     (let this0 = this\<lparr>balance := js_add (balance this) amount\<rparr>;
          this1 = (if amount > 0
                   then this0\<lparr>totalEarned := js_add (totalEarned this0) amount\<rparr>
                   else this0\<lparr>totalSpent := js_add (totalSpent this0) \<bar>amount\<bar>\<rparr>);
          this2 = this1\<lparr>lastUpdated := now\<rparr>;
          d1 = save_balance u this2 d;
          (r, d2) = save_transaction
             \<lparr>tx_user = u, tx_type = ''adjustment'', tx_amount = amount, tx_balance = balance this2,
              tx_description = description, tx_category = ''admin_adjustment'',
              tx_createdAt = now\<rparr> d1
      in (r, this2, d2))"

subsection \<open>Credit service: \<^verbatim>\<open>credit.service.js\<close>\<close>

text \<open>
  The amount argument is a number with an integer value, so \<^verbatim>\<open>parseInt\<close> does not give
  \<^verbatim>\<open>NaN\<close> and the \<^verbatim>\<open>isNaN\<close> branch of the validation is not reachable. Every method wraps
  its body in
  \<^verbatim>\<open>try { ... } catch (error) { logger.error(...); throw error; }\<close>, which changes neither
  result nor database.
\<close>

definition getBalance :: "object_id \<Rightarrow> date \<Rightarrow> db \<Rightarrow> credit_balance \<times> db" where
  "getBalance userId now d =
     (case creditBalances d userId of
        Some creditBalance \<Rightarrow> (creditBalance, d)
      | None \<Rightarrow> create_balance userId now d)"

definition addCredits ::
  "object_id \<Rightarrow> int \<Rightarrow> string \<Rightarrow> string \<Rightarrow> date \<Rightarrow> db
     \<Rightarrow> (error + credit_balance \<times> credit_transaction) \<times> db" where
  "addCredits userId amount category description now d =
     (let creditAmount = parseInt amount
      in if creditAmount \<le> 0 then (Inl (Error ''Invalid credit amount''), d)
      else
        let (creditBalance, d1) =
              (case creditBalances d userId of
                 Some b \<Rightarrow> (b, d)
               | None \<Rightarrow> create_balance userId now d);
            (r, creditBalance', d2) =
              cb_addCredits userId creditBalance creditAmount category description now d1
        in case r of
             Inl e \<Rightarrow> (Inl e, d2)
           | Inr transaction \<Rightarrow>
               (Inr (creditBalance', transaction),
                createNotification
                  \<lparr>n_user = userId, n_type = ''credit'', n_title = ''Credits Added''\<rparr> d2))"

definition deductCredits ::
  "object_id \<Rightarrow> int \<Rightarrow> string \<Rightarrow> string \<Rightarrow> date \<Rightarrow> db
     \<Rightarrow> (error + credit_balance \<times> credit_transaction) \<times> db" where
  "deductCredits userId amount category description now d =
     (let creditAmount = parseInt amount
      in if creditAmount \<le> 0 then (Inl (Error ''Invalid credit amount''), d)
      else case creditBalances d userId of
        None \<Rightarrow> (Inl (Error ''Credit balance not found''), d)
      | Some creditBalance \<Rightarrow>
          if balance creditBalance < creditAmount then (Inl (Error ''Insufficient credits''), d)
          else
            let (r, creditBalance', d2) =
                  cb_deductCredits userId creditBalance creditAmount category description now d
            in (case r of
                  Inl e \<Rightarrow> (Inl e, d2)
                | Inr transaction \<Rightarrow>
                    (Inr (creditBalance', transaction),
                     createNotification
                       \<lparr>n_user = userId, n_type = ''credit'', n_title = ''Credits Deducted''\<rparr>
                       d2)))"

text \<open>\<open>adminId\<close> only enters the transaction's metadata.\<close>

definition adjustCredits ::
  "object_id \<Rightarrow> int \<Rightarrow> string \<Rightarrow> object_id \<Rightarrow> date \<Rightarrow> db
     \<Rightarrow> (error + credit_balance \<times> credit_transaction) \<times> db" where
  "adjustCredits userId amount description adminId now d =
     (let adjustmentAmount = parseInt amount
      in if adjustmentAmount = 0 then (Inl (Error ''Invalid adjustment amount''), d)
      else
        let (creditBalance, d1) =
              (case creditBalances d userId of
                 Some b \<Rightarrow> (b, d)
               | None \<Rightarrow> create_balance userId now d);
            (r, creditBalance', d2) =
              cb_adjustCredits userId creditBalance adjustmentAmount description now d1
        in case r of
             Inl e \<Rightarrow> (Inl e, d2)
           | Inr transaction \<Rightarrow>
               (Inr (creditBalance', transaction),
                createNotification
                  \<lparr>n_user = userId, n_type = ''credit'', n_title = ''Credit Balance Adjusted''\<rparr>
                  d2))"

subsection \<open>Reward rules\<close>

text \<open>
  \<^verbatim>\<open>AuthService.handleDailyLoginReward\<close>. \<open>now\<close> is the clock reading of the method
  itself and \<open>stamp\<close> the later one taken inside \<^verbatim>\<open>addCredits\<close>; \<open>env\<close> is
  the value of \<^verbatim>\<open>parseInt(process.env.DAILY_LOGIN_CREDITS)\<close>, with \<open>None\<close> for \<^verbatim>\<open>NaN\<close>. The method
  catches every error, so its result is \<open>Inr ()\<close> on all paths.
\<close>

definition dailyLoginCredits :: "int option \<Rightarrow> int" where
  "dailyLoginCredits env = (case env of None \<Rightarrow> 10 | Some n \<Rightarrow> if n = 0 then 10 else n)"

text \<open>The test \<^verbatim>\<open>!lastReward || (now - lastReward) > 20 * 60 * 60 * 1000\<close>.\<close>

definition eligible :: "credit_balance \<Rightarrow> date \<Rightarrow> bool" where
  "eligible creditBalance now \<longleftrightarrow>
     (case lastDailyLoginReward creditBalance of
        None \<Rightarrow> True
      | Some lastReward \<Rightarrow> now - lastReward > 20 * 60 * 60 * 1000)"

definition handleDailyLoginReward ::
  "object_id \<Rightarrow> date \<Rightarrow> date \<Rightarrow> int option \<Rightarrow> db \<Rightarrow> (error + unit) \<times> db" where
  "handleDailyLoginReward userId now stamp env d =
     (case creditBalances d userId of
        None \<Rightarrow> (Inr (), d)
      | Some creditBalance \<Rightarrow>
          if eligible creditBalance now
          then
            let dailyCredits = dailyLoginCredits env;
                (r, this', d1) = cb_addCredits userId creditBalance dailyCredits
                                   ''daily_login'' ''Daily login reward'' stamp d
            in (case r of
                  Inl e \<Rightarrow> (Inr (), d1)
                | Inr transaction \<Rightarrow>
                    (Inr (), createNotification
                       \<lparr>n_user = userId, n_type = ''credit'', n_title = ''Daily Login Reward''\<rparr>
                       d1))
          else (Inr (), d))"

text \<open>\<^verbatim>\<open>CreditService.processProfileCompletionRewards\<close>: the milestone table and the
  \<^verbatim>\<open>for\<close> loop over it; an error of \<^verbatim>\<open>addCredits\<close> leaves the loop and is caught.\<close>

record milestone =
  percentage :: int
  credits :: int
  m_description :: string

definition milestones :: "milestone list" where
  "milestones =
     [\<lparr>percentage = 25, credits = 10, m_description = ''Profile 25% complete''\<rparr>,
      \<lparr>percentage = 50, credits = 15, m_description = ''Profile 50% complete''\<rparr>,
      \<lparr>percentage = 75, credits = 25, m_description = ''Profile 75% complete''\<rparr>,
      \<lparr>percentage = 100, credits = 50, m_description = ''Profile 100% complete''\<rparr>]"

fun award_milestones ::
  "milestone list \<Rightarrow> object_id \<Rightarrow> int \<Rightarrow> int \<Rightarrow> date \<Rightarrow> db \<Rightarrow> (error + unit) \<times> db" where
  "award_milestones [] userId oldPercentage newPercentage now d = (Inr (), d)"
| "award_milestones (m # ms) userId oldPercentage newPercentage now d =
     (if oldPercentage < percentage m \<and> newPercentage \<ge> percentage m
      then (case addCredits userId (credits m) ''profile_completion'' (m_description m) now d of
              (Inl e, d1) \<Rightarrow> (Inl e, d1)
            | (Inr res, d1) \<Rightarrow> award_milestones ms userId oldPercentage newPercentage now d1)
      else award_milestones ms userId oldPercentage newPercentage now d)"

definition processProfileCompletionRewards ::
  "object_id \<Rightarrow> int \<Rightarrow> int \<Rightarrow> date \<Rightarrow> db \<Rightarrow> (error + unit) \<times> db" where
  "processProfileCompletionRewards userId oldPercentage newPercentage now d =
     (case award_milestones milestones userId oldPercentage newPercentage now d of
        (Inl e, d1) \<Rightarrow> (Inr (), d1)
      | (Inr u, d1) \<Rightarrow> (Inr (), d1))"

text \<open>
  \<^verbatim>\<open>CreditService.awardContentInteractionCredits\<close>. \<^verbatim>\<open>rewards[interactionType] || 1\<close>
  reads an object literal, so a name inherited from \<^verbatim>\<open>Object.prototype\<close> yields a
  function or object, which \<^verbatim>\<open>parseInt\<close> in \<^verbatim>\<open>addCredits\<close> turns into \<^verbatim>\<open>NaN\<close>.
\<close>

definition object_prototype_keys :: "string list" where
  "object_prototype_keys =
     [''constructor'', ''__proto__'', ''hasOwnProperty'', ''isPrototypeOf'',
      ''propertyIsEnumerable'', ''toLocaleString'', ''toString'', ''valueOf'',
      ''__defineGetter__'', ''__defineSetter__'', ''__lookupGetter__'', ''__lookupSetter__'']"

definition interaction_rewards :: "string \<Rightarrow> int" where
  "interaction_rewards interactionType =
     (if interactionType = ''save'' then 2
      else if interactionType = ''share'' then 5
      else if interactionType = ''comment'' then 3
      else 1)"

definition awardContentInteractionCredits ::
  "object_id \<Rightarrow> object_id \<Rightarrow> string \<Rightarrow> date \<Rightarrow> db
     \<Rightarrow> (error + credit_balance \<times> credit_transaction) \<times> db" where
  "awardContentInteractionCredits userId contentId interactionType now d =
     (if interactionType \<in> set object_prototype_keys
      then (Inl (Error ''Invalid credit amount''), d)
      else addCredits userId (interaction_rewards interactionType) ''content_interaction''
             (''Credits for '' @ interactionType @ '' interaction'') now d)"

text \<open>
  A credit operation as a value, and the run of a sequence of them in which every
  operation succeeds. \<open>run_ops\<close> is \<open>None\<close> as soon as one operation throws.
\<close>

datatype credit_op =
    GetBalance object_id date
  | AddCredits object_id int string string date
  | DeductCredits object_id int string string date
  | AdjustCredits object_id int string object_id date
  | DailyLogin object_id date date "int option"

fun exec_op :: "credit_op \<Rightarrow> db \<Rightarrow> (error + unit) \<times> db" where
  "exec_op (GetBalance u now) d = (Inr (), snd (getBalance u now d))"
| "exec_op (AddCredits u a c ds now) d = map_prod (map_sum id (\<lambda>_. ())) id (addCredits u a c ds now d)"
| "exec_op (DeductCredits u a c ds now) d =
     map_prod (map_sum id (\<lambda>_. ())) id (deductCredits u a c ds now d)"
| "exec_op (AdjustCredits u a ds admin now) d =
     map_prod (map_sum id (\<lambda>_. ())) id (adjustCredits u a ds admin now d)"
| "exec_op (DailyLogin u now stamp env) d = handleDailyLoginReward u now stamp env d"

fun run_ops :: "credit_op list \<Rightarrow> db \<Rightarrow> db option" where
  "run_ops [] d = Some d"
| "run_ops (x # xs) d =
     (case exec_op x d of
        (Inl e, d1) \<Rightarrow> None
      | (Inr u, d1) \<Rightarrow> run_ops xs d1)"

text \<open>The transactions of one user, in log order.\<close>

definition user_transactions :: "db \<Rightarrow> object_id \<Rightarrow> credit_transaction list" where
  "user_transactions d u = filter (\<lambda>t. tx_user t = u) (creditTransactions d)"

subsection \<open>Content model: \<^verbatim>\<open>content.model.js\<close>\<close>

definition content_sources :: "string list" where
  "content_sources = [''twitter'', ''reddit'', ''linkedin'']"

definition content_types :: "string list" where
  "content_types = [''post'', ''tweet'', ''article'', ''comment'', ''other'']"

text \<open>
  The validators of \<^verbatim>\<open>contentSchema\<close>: the enums of \<^verbatim>\<open>source\<close> and \<^verbatim>\<open>contentType\<close> and
  \<^verbatim>\<open>required\<close> on the strings \<^verbatim>\<open>sourceId\<close> and \<^verbatim>\<open>sourceUsername\<close>. The two required
  dates are always present in a \<open>content_obj\<close>.
\<close>

definition validate_content :: "'a content_obj_scheme \<Rightarrow> bool" where
  "validate_content c \<longleftrightarrow>
     source c \<in> set content_sources \<and>
     sourceId c \<noteq> [] \<and>
     sourceUsername c \<noteq> [] \<and>
     contentType c \<in> set content_types"

text \<open>\<^verbatim>\<open>new Content(post)\<close>: the fields of the object, a new \<^verbatim>\<open>_id\<close> and the default
  \<^verbatim>\<open>isInappropriate: false\<close>.\<close>

definition new_Content :: "object_id \<Rightarrow> content_obj \<Rightarrow> content" where
  "new_Content i p =
     \<lparr>source = source p, sourceId = sourceId p, sourceUsername = sourceUsername p,
      sourceName = sourceName p, contentType = contentType p, title = title p,
      text_body = text_body p, categories = categories p, url = url p,
      engagement = engagement p, contentCreatedAt = contentCreatedAt p,
      cacheExpiration = cacheExpiration p, c_id = i, isInappropriate = False\<rparr>"

definition fresh_id :: "content list \<Rightarrow> object_id" where
  "fresh_id cs = Suc (fold max (map c_id cs) 0)"

text \<open>\<^verbatim>\<open>findOne({ source: src, sourceId: sid })\<close>.\<close>

definition findOne_content :: "string \<Rightarrow> string \<Rightarrow> db \<Rightarrow> content option" where
  "findOne_content src sid d = find (\<lambda>c. source c = src \<and> sourceId c = sid) (contents d)"

text \<open>
  \<^verbatim>\<open>newPost.save()\<close> of a new document: validation, then the insert, which the unique
  index on \<^verbatim>\<open>{ sourceId: 1, source: 1 }\<close> rejects for a pair already stored.
\<close>

definition insert_content :: "content_obj \<Rightarrow> db \<Rightarrow> (error + content) \<times> db" where
  "insert_content p d =
     (if \<not> validate_content p
      then (Inl (ValidationError ''Content validation failed''), d)
      else if findOne_content (source p) (sourceId p) d \<noteq> None
      then (Inl (MongoServerError ''E11000 duplicate key error''), d)
      else
        let doc = new_Content (fresh_id (contents d)) p
        in (Inr doc, d\<lparr>contents := contents d @ [doc]\<rparr>))"

text \<open>\<^verbatim>\<open>this.save()\<close> of a stored document: validation, then the update by \<^verbatim>\<open>_id\<close>.\<close>

definition save_content :: "content \<Rightarrow> db \<Rightarrow> (error + content) \<times> db" where
  "save_content this d =
     (if validate_content this
      then (Inr this,
            d\<lparr>contents := map (\<lambda>c. if c_id c = c_id this then this else c) (contents d)\<rparr>)
      else (Inl (ValidationError ''Content validation failed''), d))"

text \<open>JavaScript's \<^verbatim>\<open>a || b\<close> on numbers: \<open>0\<close> is falsy.\<close>

definition js_or :: "int \<Rightarrow> int \<Rightarrow> int" where
  "js_or a b = (if a \<noteq> 0 then a else b)"

definition updateEngagementMetrics ::
  "int \<Rightarrow> int \<Rightarrow> int \<Rightarrow> content \<Rightarrow> db \<Rightarrow> (error + content) \<times> db" where
  "updateEngagementMetrics newLikes newComments newShares this d =
     (let e = engagement this;
          l = js_or newLikes (likes e);
          c = js_or newComments (comments e);
          s = js_or newShares (shares e)
      in save_content
           (this\<lparr>engagement := \<lparr>likes = l, comments = c, shares = s,
                                 totalEngagement = js_add (js_add l c) s\<rparr>\<rparr>) d)"

definition refreshCache :: "int \<Rightarrow> date \<Rightarrow> content \<Rightarrow> db \<Rightarrow> (error + content) \<times> db" where
  "refreshCache expirationHours now this d =
     save_content (this\<lparr>cacheExpiration := now + expirationHours * 60 * 60 * 1000\<rparr>) d"

subsection \<open>Saving normalized objects: \<^verbatim>\<open>savePostsToDatabase\<close>, \<^verbatim>\<open>saveTweetsToDatabase\<close>\<close>

text \<open>
  The body of the inner \<^verbatim>\<open>try\<close> of both loops, which differ in the source literal of the
  lookup only, and the loops themselves: a rejected object is logged and skipped.
\<close>

definition save_one :: "string \<Rightarrow> content_obj \<Rightarrow> date \<Rightarrow> db \<Rightarrow> (error + content) \<times> db" where
  "save_one src post now d =
     (case findOne_content src (sourceId post) d of
        Some existingPost \<Rightarrow>
          (case updateEngagementMetrics (likes (engagement post)) (comments (engagement post))
                  (shares (engagement post)) existingPost d of
             (Inl e, d1) \<Rightarrow> (Inl e, d1)
           | (Inr existingPost1, d1) \<Rightarrow> refreshCache 24 now existingPost1 d1)
      | None \<Rightarrow> insert_content post d)"

fun save_loop :: "string \<Rightarrow> content_obj list \<Rightarrow> date \<Rightarrow> db \<Rightarrow> content list \<times> db" where
  "save_loop src [] now d = ([], d)"
| "save_loop src (post # posts) now d =
     (case save_one src post now d of
        (Inl postError, d1) \<Rightarrow> save_loop src posts now d1
      | (Inr doc, d1) \<Rightarrow>
          (case save_loop src posts now d1 of (savedPosts, d2) \<Rightarrow> (doc # savedPosts, d2)))"

definition savePostsToDatabase :: "content_obj list \<Rightarrow> date \<Rightarrow> db \<Rightarrow> content list \<times> db" where
  "savePostsToDatabase posts now d = save_loop ''reddit'' posts now d"

definition saveTweetsToDatabase :: "content_obj list \<Rightarrow> date \<Rightarrow> db \<Rightarrow> content list \<times> db" where
  "saveTweetsToDatabase tweets now d = save_loop ''twitter'' tweets now d"

subsection \<open>Reddit adapter: \<^verbatim>\<open>RedditService\<close>\<close>

text \<open>A post as the Reddit client returns it (the fields the normalizer reads, media
  apart). Optional fields are the ones the normalizer guards with \<^verbatim>\<open>||\<close>.\<close>

record reddit_post =
  rp_id :: string
  rp_author_name :: string
  rp_is_self :: bool
  rp_is_video :: bool
  rp_post_hint :: "string option"
  rp_title :: string
  rp_selftext :: "string option"
  rp_permalink :: string
  rp_ups :: "int option"
  rp_num_comments :: "int option"
  rp_created_utc :: int
  rp_subreddit :: string
  rp_link_flair_text :: "string option"

text \<open>
  \<^verbatim>\<open>extractCategories\<close>, for ASCII titles: lower-case, drop what is neither \<^verbatim>\<open>\w\<close> nor
  \<^verbatim>\<open>\s\<close>, split at white space, keep the words longer than three characters off the stop
  list, and take the three longest (the sort is stable). \<open>split_ws\<close> cuts at every single
  white-space character; the empty pieces this adds to those of \<^verbatim>\<open>split(/\s+/)\<close> do not
  pass the length filter.
\<close>

definition is_word_char :: "char \<Rightarrow> bool" where
  "is_word_char c \<longleftrightarrow>
     (let n = (of_char c :: nat)
      in (48 \<le> n \<and> n \<le> 57) \<or> (65 \<le> n \<and> n \<le> 90) \<or> n = 95 \<or> (97 \<le> n \<and> n \<le> 122))"

definition is_space_char :: "char \<Rightarrow> bool" where
  "is_space_char c \<longleftrightarrow> (of_char c :: nat) \<in> {9, 10, 11, 12, 13, 32}"

definition to_lower_char :: "char \<Rightarrow> char" where
  "to_lower_char c =
     (let n = (of_char c :: nat) in if 65 \<le> n \<and> n \<le> 90 then char_of (n + 32) else c)"

definition toLowerCase :: "string \<Rightarrow> string" where
  "toLowerCase s = map to_lower_char s"

fun split_ws :: "string \<Rightarrow> string \<Rightarrow> string list" where
  "split_ws [] w = [rev w]"
| "split_ws (c # cs) w =
     (if is_space_char c then rev w # split_ws cs [] else split_ws cs (c # w))"

definition stop_words :: "string list" where
  "stop_words = [''this'', ''that'', ''what'', ''when'', ''where'', ''which'', ''while'', ''with'']"

definition extractCategories :: "reddit_post \<Rightarrow> string list" where
  "extractCategories post =
     (let flair = (case rp_link_flair_text post of
                     None \<Rightarrow> []
                   | Some f \<Rightarrow> if f = [] then [] else [f]);
          cleaned = filter (\<lambda>c. is_word_char c \<or> is_space_char c) (toLowerCase (rp_title post));
          titleWords = filter (\<lambda>w. length w > 3 \<and> w \<notin> set stop_words) (split_ws cleaned [])
      in flair @ take 3 (sort_key (\<lambda>w. - int (length w)) titleWords))"

text \<open>The content type the normalizer assigns.\<close>

definition reddit_contentType :: "reddit_post \<Rightarrow> string" where
  "reddit_contentType post =
     (if rp_is_self post then ''text''
      else if rp_is_video post then ''video''
      else if rp_post_hint post = Some ''image'' then ''image''
      else if rp_post_hint post = Some ''link'' then ''link''
      else ''post'')"

definition normalize_post :: "reddit_post \<Rightarrow> string option \<Rightarrow> date \<Rightarrow> content_obj" where
  "normalize_post post subredditName now =
     (let ups = (case rp_ups post of None \<Rightarrow> 0 | Some n \<Rightarrow> js_or n 0);
          num_comments = (case rp_num_comments post of None \<Rightarrow> 0 | Some n \<Rightarrow> js_or n 0);
          firstCategory =
            (if rp_subreddit post \<noteq> [] then rp_subreddit post
             else case subredditName of
                    None \<Rightarrow> ''reddit''
                  | Some n \<Rightarrow> if n \<noteq> [] then n else ''reddit'')
      in \<lparr>source = ''reddit'',
          sourceId = rp_id post,
          sourceUsername = rp_author_name post,
          sourceName = rp_author_name post,
          contentType = reddit_contentType post,
          title = Some (rp_title post),
          text_body = (case rp_selftext post of None \<Rightarrow> [] | Some t \<Rightarrow> t),
          categories = firstCategory # extractCategories post,
          url = ''https://www.reddit.com'' @ rp_permalink post,
          engagement = \<lparr>likes = ups, comments = num_comments, shares = 0,
                         totalEngagement = js_add ups num_comments\<rparr>,
          contentCreatedAt = rp_created_utc post * 1000,
          cacheExpiration = now + 24 * 60 * 60 * 1000\<rparr>)"

fun normalizePosts :: "reddit_post list \<Rightarrow> string option \<Rightarrow> date \<Rightarrow> content_obj list" where
  "normalizePosts [] subredditName now = []"
| "normalizePosts (post # posts) subredditName now =
     (if rp_author_name post = ''[deleted]'' then normalizePosts posts subredditName now
      else normalize_post post subredditName now # normalizePosts posts subredditName now)"

text \<open>
  The Reddit client is a parameter: for a subreddit, a listing, \<^verbatim>\<open>limit\<close> and (for two of
  the listings) \<^verbatim>\<open>time\<close>, the posts or the error that \<^verbatim>\<open>getSubreddit\<close> or the listing
  call throws.
\<close>

datatype listing = GetHot | GetNew | GetTop | GetRising | GetControversial

type_synonym reddit_client = "string \<Rightarrow> listing \<Rightarrow> int \<Rightarrow> string option \<Rightarrow> error + reddit_post list"

definition fetch_listing ::
  "reddit_client \<Rightarrow> string \<Rightarrow> string \<Rightarrow> int \<Rightarrow> string \<Rightarrow> error + reddit_post list" where
  "fetch_listing client subreddit sortKind limit time =
     (if sortKind = ''hot'' then client subreddit GetHot limit None
      else if sortKind = ''new'' then client subreddit GetNew limit None
      else if sortKind = ''top'' then client subreddit GetTop limit (Some time)
      else if sortKind = ''rising'' then client subreddit GetRising limit None
      else if sortKind = ''controversial'' then client subreddit GetControversial limit (Some time)
      else client subreddit GetHot limit None)"

text \<open>The \<^verbatim>\<open>for\<close> loop of \<^verbatim>\<open>fetchSubredditPosts\<close> with its accumulator \<^verbatim>\<open>allPosts\<close>; the
  \<^verbatim>\<open>catch\<close> of the inner \<^verbatim>\<open>try\<close> logs and continues.\<close>

fun fetchSubredditPosts_loop ::
  "reddit_client \<Rightarrow> string list \<Rightarrow> int \<Rightarrow> string \<Rightarrow> string \<Rightarrow> (reddit_post \<Rightarrow> bool) option
     \<Rightarrow> date \<Rightarrow> content_obj list \<Rightarrow> content_obj list" where
  "fetchSubredditPosts_loop client [] limit time sortKind postFilter now allPosts = allPosts"
| "fetchSubredditPosts_loop client (subreddit # rest) limit time sortKind postFilter now allPosts =
     (case fetch_listing client subreddit sortKind limit time of
        Inl subredditError \<Rightarrow>
          fetchSubredditPosts_loop client rest limit time sortKind postFilter now allPosts
      | Inr posts \<Rightarrow>
          let filteredPosts = (case postFilter of None \<Rightarrow> posts | Some f \<Rightarrow> filter f posts);
              normalizedPosts = normalizePosts filteredPosts (Some subreddit) now
          in fetchSubredditPosts_loop client rest limit time sortKind postFilter now
               (allPosts @ normalizedPosts))"

definition fetchSubredditPosts ::
  "reddit_client \<Rightarrow> string list \<Rightarrow> int \<Rightarrow> string \<Rightarrow> string \<Rightarrow> (reddit_post \<Rightarrow> bool) option
     \<Rightarrow> date \<Rightarrow> error + content_obj list" where
  "fetchSubredditPosts client subreddits limit time sortKind postFilter now =
     Inr (fetchSubredditPosts_loop client subreddits limit time sortKind postFilter now [])"

definition fetchTrendingPosts ::
  "reddit_client \<Rightarrow> int \<Rightarrow> string list \<Rightarrow> date \<Rightarrow> error + content_obj list" where
  "fetchTrendingPosts client limit excludedSubs now =
     (case client ''all'' GetHot limit None of
        Inl e \<Rightarrow> Inl e
      | Inr posts \<Rightarrow>
          Inr (normalizePosts
                 (filter (\<lambda>post. toLowerCase (rp_subreddit post) \<notin> set excludedSubs) posts)
                 None now))"

record reddit_options =
  postsPerSubreddit :: "int option"
  ro_sort :: "string option"
  ro_time :: "string option"
  includeTrending :: bool
  trendingLimit :: "int option"
  excludedSubreddits :: "string list option"

record fetch_result =
  fetched :: nat
  saved :: nat

definition int_or :: "int option \<Rightarrow> int \<Rightarrow> int" where
  "int_or x dflt = (case x of None \<Rightarrow> dflt | Some n \<Rightarrow> js_or n dflt)"

definition string_or :: "string option \<Rightarrow> string \<Rightarrow> string" where
  "string_or x dflt = (case x of None \<Rightarrow> dflt | Some s \<Rightarrow> if s \<noteq> [] then s else dflt)"

definition fetchAndSavePosts ::
  "reddit_client \<Rightarrow> string list \<Rightarrow> reddit_options \<Rightarrow> date \<Rightarrow> db
     \<Rightarrow> (error + fetch_result) \<times> db" where
  "fetchAndSavePosts client subreddits options now d =
     (case (if subreddits \<noteq> []
            then fetchSubredditPosts client subreddits (int_or (postsPerSubreddit options) 25)
                   (string_or (ro_time options) ''day'') (string_or (ro_sort options) ''hot'')
                   None now
            else Inr []) of
        Inl e \<Rightarrow> (Inl e, d)
      | Inr subredditPosts \<Rightarrow>
          (case (if includeTrending options
                 then fetchTrendingPosts client (int_or (trendingLimit options) 50)
                        (case excludedSubreddits options of None \<Rightarrow> [] | Some xs \<Rightarrow> xs) now
                 else Inr []) of
             Inl e \<Rightarrow> (Inl e, d)
           | Inr trendingPosts \<Rightarrow>
               (case savePostsToDatabase (subredditPosts @ trendingPosts) now d of
                  (savedPosts, d1) \<Rightarrow>
                    (Inr \<lparr>fetched = length (subredditPosts @ trendingPosts),
                          saved = length savedPosts\<rparr>, d1))))"

subsection \<open>Twitter adapter: \<^verbatim>\<open>TwitterService\<close>\<close>

record tw_user =
  tw_id :: string
  tw_username :: string
  tw_name :: string

text \<open>A tweet of the API response; the metrics are optional as \<^verbatim>\<open>public_metrics?.x || 0\<close>
  treats them, the hashtags as \<^verbatim>\<open>entities?.hashtags?.map(...) || []\<close> does.\<close>

record tweet =
  t_id :: string
  t_author_id :: string
  t_text :: string
  t_hashtags :: "string list option"
  t_like_count :: "int option"
  t_reply_count :: "int option"
  t_retweet_count :: "int option"
  t_created_at :: date

record tweets_response =
  tr_data :: "tweet list option"
  tr_users :: "tw_user list"

text \<open>The Twitter client is a parameter: each call gives its response or the error it throws.\<close>

record twitter_client =
  userByUsername :: "string \<Rightarrow> error + tw_user option"
  userTimeline :: "string \<Rightarrow> int \<Rightarrow> error + tweets_response"
  search :: "string \<Rightarrow> int \<Rightarrow> error + tweets_response"

definition normalize_tweet :: "tweet \<Rightarrow> tw_user \<Rightarrow> date \<Rightarrow> content_obj" where
  "normalize_tweet tw author now =
     (let l = int_or (t_like_count tw) 0;
          c = int_or (t_reply_count tw) 0;
          s = int_or (t_retweet_count tw) 0
      in \<lparr>source = ''twitter'',
          sourceId = t_id tw,
          sourceUsername = tw_username author,
          sourceName = tw_name author,
          contentType = ''tweet'',
          title = None,
          text_body = t_text tw,
          categories = (case t_hashtags tw of None \<Rightarrow> [] | Some hs \<Rightarrow> hs),
          url = ''https://twitter.com/'' @ tw_username author @ ''/status/'' @ t_id tw,
          engagement = \<lparr>likes = l, comments = c, shares = s,
                         totalEngagement = js_add (js_add l c) s\<rparr>,
          contentCreatedAt = t_created_at tw,
          cacheExpiration = now + 24 * 60 * 60 * 1000\<rparr>)"

fun normalize_tweets_loop :: "tweet list \<Rightarrow> tw_user list \<Rightarrow> date \<Rightarrow> content_obj list" where
  "normalize_tweets_loop [] includedUsers now = []"
| "normalize_tweets_loop (tw # tws) includedUsers now =
     (case find (\<lambda>u. tw_id u = t_author_id tw) includedUsers of
        None \<Rightarrow> normalize_tweets_loop tws includedUsers now
      | Some author \<Rightarrow> normalize_tweet tw author now # normalize_tweets_loop tws includedUsers now)"

definition normalizeTweets :: "tweets_response \<Rightarrow> date \<Rightarrow> content_obj list" where
  "normalizeTweets tweetsResponse now =
     (case tr_data tweetsResponse of
        None \<Rightarrow> []
      | Some tws \<Rightarrow> normalize_tweets_loop tws (tr_users tweetsResponse) now)"

text \<open>The loops of \<^verbatim>\<open>fetchTweetsFromUsers\<close> and \<^verbatim>\<open>fetchTweetsFromHashtags\<close>.\<close>

fun fetchTweetsFromUsers_loop ::
  "twitter_client \<Rightarrow> string list \<Rightarrow> int \<Rightarrow> date \<Rightarrow> content_obj list \<Rightarrow> content_obj list" where
  "fetchTweetsFromUsers_loop client [] maxResults now allTweets = allTweets"
| "fetchTweetsFromUsers_loop client (handle # rest) maxResults now allTweets =
     (case userByUsername client handle of
        Inl userError \<Rightarrow> fetchTweetsFromUsers_loop client rest maxResults now allTweets
      | Inr None \<Rightarrow> fetchTweetsFromUsers_loop client rest maxResults now allTweets
      | Inr (Some u) \<Rightarrow>
          (case userTimeline client (tw_id u) maxResults of
             Inl userError \<Rightarrow> fetchTweetsFromUsers_loop client rest maxResults now allTweets
           | Inr tweets \<Rightarrow>
               if tr_data tweets \<noteq> None
               then fetchTweetsFromUsers_loop client rest maxResults now
                      (allTweets @ normalizeTweets tweets now)
               else fetchTweetsFromUsers_loop client rest maxResults now allTweets))"

definition fetchTweetsFromUsers ::
  "twitter_client \<Rightarrow> string list \<Rightarrow> int \<Rightarrow> date \<Rightarrow> error + content_obj list" where
  "fetchTweetsFromUsers client userHandles maxResults now =
     Inr (fetchTweetsFromUsers_loop client userHandles maxResults now [])"

definition hashtag_query :: "string \<Rightarrow> string" where
  "hashtag_query hashtag =
     CHR ''#'' # (case hashtag of [] \<Rightarrow> [] | c # cs \<Rightarrow> if c = CHR ''#'' then cs else c # cs)"

fun fetchTweetsFromHashtags_loop ::
  "twitter_client \<Rightarrow> string list \<Rightarrow> int \<Rightarrow> date \<Rightarrow> content_obj list \<Rightarrow> content_obj list" where
  "fetchTweetsFromHashtags_loop client [] maxResults now allTweets = allTweets"
| "fetchTweetsFromHashtags_loop client (hashtag # rest) maxResults now allTweets =
     (case search client (hashtag_query hashtag) maxResults of
        Inl hashtagError \<Rightarrow> fetchTweetsFromHashtags_loop client rest maxResults now allTweets
      | Inr tweets \<Rightarrow>
          if tr_data tweets \<noteq> None
          then fetchTweetsFromHashtags_loop client rest maxResults now
                 (allTweets @ normalizeTweets tweets now)
          else fetchTweetsFromHashtags_loop client rest maxResults now allTweets)"

definition fetchTweetsFromHashtags ::
  "twitter_client \<Rightarrow> string list \<Rightarrow> int \<Rightarrow> date \<Rightarrow> error + content_obj list" where
  "fetchTweetsFromHashtags client hashtags maxResults now =
     Inr (fetchTweetsFromHashtags_loop client hashtags maxResults now [])"

record twitter_options =
  tweetsPerUser :: "int option"
  tweetsPerHashtag :: "int option"

definition fetchAndSaveTweets ::
  "twitter_client \<Rightarrow> string list \<Rightarrow> string list \<Rightarrow> twitter_options \<Rightarrow> date \<Rightarrow> db
     \<Rightarrow> (error + fetch_result) \<times> db" where
  "fetchAndSaveTweets client userHandles hashtags options now d =
     (case (if userHandles \<noteq> []
            then fetchTweetsFromUsers client userHandles (int_or (tweetsPerUser options) 10) now
            else Inr []) of
        Inl e \<Rightarrow> (Inl e, d)
      | Inr userTweets \<Rightarrow>
          (case (if hashtags \<noteq> []
                 then fetchTweetsFromHashtags client hashtags
                        (int_or (tweetsPerHashtag options) 20) now
                 else Inr []) of
             Inl e \<Rightarrow> (Inl e, d)
           | Inr hashtagTweets \<Rightarrow>
               (case saveTweetsToDatabase (userTweets @ hashtagTweets) now d of
                  (savedTweets, d1) \<Rightarrow>
                    (Inr \<lparr>fetched = length (userTweets @ hashtagTweets),
                          saved = length savedTweets\<rparr>, d1))))"

subsection \<open>Feed service: \<^verbatim>\<open>FeedService\<close>\<close>

text \<open>\<^verbatim>\<open>refreshFeedContent\<close> with its fixed target lists and options.\<close>

definition twitterHandles :: "string list" where
  "twitterHandles = [''MKBHD'', ''iJustine'', ''ThioJoe'', ''UnboxTherapy'', ''LinusTech'',
     ''Google'', ''Microsoft'', ''Apple'', ''TechCrunch'', ''TheVerge'']"

definition refresh_subreddits :: "string list" where
  "refresh_subreddits = [''technology'', ''gadgets'', ''programming'', ''webdev'', ''youtubers'',
     ''videos'', ''apple'', ''android'', ''software'', ''hardware'']"

definition refresh_hashtags :: "string list" where
  "refresh_hashtags = [''tech'', ''gadgets'', ''programming'', ''ai'']"

definition refresh_tweet_options :: twitter_options where
  "refresh_tweet_options = \<lparr>tweetsPerUser = Some 5, tweetsPerHashtag = Some 10\<rparr>"

definition refresh_post_options :: reddit_options where
  "refresh_post_options =
     \<lparr>postsPerSubreddit = Some 5, ro_sort = None, ro_time = None,
      includeTrending = True, trendingLimit = Some 20, excludedSubreddits = None\<rparr>"

record refresh_result =
  totalFetched :: nat
  totalSaved :: nat

definition refreshFeedContent ::
  "twitter_client \<Rightarrow> reddit_client \<Rightarrow> string list \<Rightarrow> date \<Rightarrow> db
     \<Rightarrow> (error + refresh_result) \<times> db" where
  "refreshFeedContent twitter reddit srcs now d =
     (case (if ''twitter'' \<in> set srcs
            then fetchAndSaveTweets twitter twitterHandles refresh_hashtags
                   refresh_tweet_options now d
            else (Inr \<lparr>fetched = 0, saved = 0\<rparr>, d)) of
        (Inl e, d1) \<Rightarrow> (Inl e, d1)
      | (Inr twitterResult, d1) \<Rightarrow>
          (case (if ''reddit'' \<in> set srcs
                 then fetchAndSavePosts reddit refresh_subreddits refresh_post_options now d1
                 else (Inr \<lparr>fetched = 0, saved = 0\<rparr>, d1)) of
             (Inl e, d2) \<Rightarrow> (Inl e, d2)
           | (Inr redditResult, d2) \<Rightarrow>
               (Inr \<lparr>totalFetched = fetched twitterResult + fetched redditResult,
                     totalSaved = saved twitterResult + saved redditResult\<rparr>, d2)))"

definition getEnabledSourcesFromPreferences :: "user \<Rightarrow> string list" where
  "getEnabledSourcesFromPreferences u =
     (let srcs = (if pref_twitter u then [''twitter''] else [])
               @ (if pref_reddit u then [''reddit''] else [])
               @ (if pref_linkedin u then [''linkedin''] else [])
      in if srcs = [] then [''twitter'', ''reddit''] else srcs)"

definition findById_content :: "object_id \<Rightarrow> db \<Rightarrow> content option" where
  "findById_content contentId d = find (\<lambda>c. c_id c = contentId) (contents d)"

text \<open>
  \<^verbatim>\<open>getUserSavedContentIds\<close>. The \<^verbatim>\<open>pre(/^find/)\<close> hook of \<^verbatim>\<open>savedContentSchema\<close>
  populates \<^verbatim>\<open>content\<close>, so under \<^verbatim>\<open>lean()\<close> each \<^verbatim>\<open>item.content\<close> is the content
  object, or \<^verbatim>\<open>null\<close> when the content is gone. \<^verbatim>\<open>toString()\<close> gives the string
  \<^verbatim>\<open>[object Object]\<close> for the one and throws for the other, which the \<^verbatim>\<open>catch\<close> answers
  with the empty list. The two kinds of string that \<^verbatim>\<open>includes\<close> compares, the hex string
  of an \<^verbatim>\<open>ObjectId\<close> and \<^verbatim>\<open>[object Object]\<close>, are the constructors of \<open>id_string\<close>.
\<close>

datatype id_string = IdString object_id | ObjectObject

definition getUserSavedContentIds :: "object_id \<Rightarrow> db \<Rightarrow> id_string list" where
  "getUserSavedContentIds userId d =
     (let savedContent = filter (\<lambda>sc. sc_user sc = userId) (savedContents d)
      in if list_all (\<lambda>item. findById_content (sc_content item) d \<noteq> None) savedContent
         then map (\<lambda>item. ObjectObject) savedContent
         else [])"

text \<open>The query of \<^verbatim>\<open>getUserFeed\<close>; an empty list of sources or categories adds no
  condition.\<close>

definition feed_query :: "string list \<Rightarrow> string list \<Rightarrow> content \<Rightarrow> bool" where
  "feed_query includeSources includeCategories c \<longleftrightarrow>
     isInappropriate c = False \<and>
     (if includeSources \<noteq> [] then source c \<in> set includeSources else True) \<and>
     (if includeCategories \<noteq> []
      then list_ex (\<lambda>x. x \<in> set includeCategories) (categories c) else True)"

text \<open>
  \<^verbatim>\<open>.sort(sortOptions).skip(n).limit(l)\<close>: descending by the sort key (a stable sort stands
  for the order MongoDB leaves open among equal keys); the server rejects a negative
  \<^verbatim>\<open>skip\<close>, a \<^verbatim>\<open>limit\<close> of \<open>0\<close> is no limit, and a negative \<^verbatim>\<open>limit\<close> counts as its absolute
  value.
\<close>

definition sort_feed :: "string \<Rightarrow> content list \<Rightarrow> content list" where
  "sort_feed sortBy cs =
     (if sortBy = ''popular''
      then sort_key (\<lambda>c. - totalEngagement (engagement c)) cs
      else sort_key (\<lambda>c. - contentCreatedAt c) cs)"

definition skip_limit :: "int \<Rightarrow> int \<Rightarrow> 'a list \<Rightarrow> error + 'a list" where
  "skip_limit n l xs =
     (if n < 0 then Inl (MongoServerError ''skip value must be non-negative'')
      else Inr (if l = 0 then drop (nat n) xs else take (nat \<bar>l\<bar>) (drop (nat n) xs)))"

text \<open>A JavaScript number that may be no integer: the value of \<^verbatim>\<open>Math.ceil(total / limit)\<close>
  for a count \<open>totalCount\<close>.\<close>

datatype js_number = Num int | Infinity | NaN

definition ceil_div :: "nat \<Rightarrow> int \<Rightarrow> js_number" where
  "ceil_div totalCount limit =
     (if limit = 0 then (if totalCount = 0 then NaN else Infinity)
      else Num (- ((- int totalCount) div limit)))"

record feed_options =
  fo_page :: "int option"
  fo_limit :: "int option"
  fo_sources :: "string list option"
  fo_categories :: "string list option"
  fo_sortBy :: "string option"
  fo_isRefresh :: "bool option"

record pagination =
  pg_page :: int
  pg_limit :: int
  pg_total :: nat
  pg_pages :: js_number

record feed =
  items :: "(content \<times> bool) list"
  feed_pagination :: pagination

definition getUserFeed ::
  "twitter_client \<Rightarrow> reddit_client \<Rightarrow> object_id \<Rightarrow> feed_options \<Rightarrow> date \<Rightarrow> db
     \<Rightarrow> (error + feed) \<times> db" where
  "getUserFeed twitter reddit userId options now d =
     (let page = (case fo_page options of None \<Rightarrow> 1 | Some p \<Rightarrow> p);
          limit = (case fo_limit options of None \<Rightarrow> 20 | Some l \<Rightarrow> l);
          sortBy = (case fo_sortBy options of None \<Rightarrow> ''recent'' | Some s \<Rightarrow> s);
          isRefresh = (case fo_isRefresh options of None \<Rightarrow> False | Some r \<Rightarrow> r)
      in case users d userId of
           None \<Rightarrow> (Inl (Error ''User not found''), d)
         | Some u \<Rightarrow>
             let includeSources =
                   (case fo_sources options of
                      Some srcs \<Rightarrow> srcs
                    | None \<Rightarrow> getEnabledSourcesFromPreferences u);
                 includeCategories =
                   (case fo_categories options of
                      Some cats \<Rightarrow> cats
                    | None \<Rightarrow> pref_contentCategories u)
             in (case (if isRefresh
                       then refreshFeedContent twitter reddit includeSources now d
                       else (Inr \<lparr>totalFetched = 0, totalSaved = 0\<rparr>, d)) of
                   (Inl e, d1) \<Rightarrow> (Inl e, d1)
                 | (Inr refreshed, d1) \<Rightarrow>
                     let matching = filter (feed_query includeSources includeCategories)
                                      (contents d1)
                     in (case skip_limit (js_mul (js_sub page 1) limit) limit
                                (sort_feed sortBy matching) of
                           Inl e \<Rightarrow> (Inl e, d1)
                         | Inr feedItems \<Rightarrow>
                             let totalCount = length matching;
                                 savedContentIds = getUserSavedContentIds userId d1
                             in (Inr \<lparr>items = map (\<lambda>item. (item, IdString (c_id item)
                                                                     \<in> set savedContentIds))
                                                  feedItems,
                                       feed_pagination =
                                         \<lparr>pg_page = parseInt page, pg_limit = parseInt limit,
                                          pg_total = totalCount,
                                          pg_pages = ceil_div totalCount limit\<rparr>\<rparr>, d1))))"

text \<open>\<^verbatim>\<open>saveContent\<close>. The options are optional, with the defaults of the destructuring.\<close>

record save_options =
  so_folder :: "string option"
  so_tags :: "string list option"
  so_notes :: "string option"

text \<open>The position of the first document that matches, for \<^verbatim>\<open>findOne\<close> followed by
  \<^verbatim>\<open>save\<close> of the document found.\<close>

fun find_index_of :: "('a \<Rightarrow> bool) \<Rightarrow> 'a list \<Rightarrow> nat option" where
  "find_index_of P [] = None"
| "find_index_of P (x # xs) =
     (if P x then Some 0 else map_option Suc (find_index_of P xs))"

definition saveContent ::
  "object_id \<Rightarrow> object_id \<Rightarrow> save_options \<Rightarrow> date \<Rightarrow> db
     \<Rightarrow> (error + string \<times> saved_content) \<times> db" where
  "saveContent userId contentId options now d =
     (let folder = (case so_folder options of None \<Rightarrow> ''General'' | Some f \<Rightarrow> f);
          tags = (case so_tags options of None \<Rightarrow> [] | Some ts \<Rightarrow> ts);
          notes = (case so_notes options of None \<Rightarrow> [] | Some n \<Rightarrow> n)
      in case findById_content contentId d of
           None \<Rightarrow> (Inl (Error ''Content not found''), d)
         | Some c \<Rightarrow>
             (case find_index_of (\<lambda>sc. sc_user sc = userId \<and> sc_content sc = contentId)
                     (savedContents d) of
                Some i \<Rightarrow>
                  let existingSaved = (savedContents d ! i)
                        \<lparr>sc_folder := folder, sc_tags := tags, sc_notes := notes\<rparr>
                  in (Inr (''Content updated in saved items'', existingSaved),
                      d\<lparr>savedContents := (savedContents d)[i := existingSaved]\<rparr>)
              | None \<Rightarrow>
                  let savedContent = \<lparr>sc_user = userId, sc_content = contentId, sc_folder = folder,
                                      sc_tags = tags, sc_notes = notes, sc_savedAt = now\<rparr>;
                      d1 = d\<lparr>savedContents := savedContents d @ [savedContent]\<rparr>
                  in (case awardContentInteractionCredits userId contentId ''save'' now d1 of
                        (Inl e, d2) \<Rightarrow> (Inl e, d2)
                      | (Inr res, d2) \<Rightarrow>
                          (Inr (''Content saved successfully'', savedContent), d2))))"

text \<open>\<^verbatim>\<open>unsaveContent\<close>: \<^verbatim>\<open>findOneAndDelete\<close> removes the first matching document.\<close>

definition unsaveContent :: "object_id \<Rightarrow> object_id \<Rightarrow> db \<Rightarrow> (error + string) \<times> db" where
  "unsaveContent userId contentId d =
     (case find_index_of (\<lambda>sc. sc_user sc = userId \<and> sc_content sc = contentId)
             (savedContents d) of
        None \<Rightarrow> (Inl (Error ''Saved content not found''), d)
      | Some i \<Rightarrow>
          (Inr ''Content removed from saved items'',
           d\<lparr>savedContents := take i (savedContents d) @ drop (Suc i) (savedContents d)\<rparr>))"

text \<open>\<^verbatim>\<open>reportContent\<close>, with the validators of \<^verbatim>\<open>reportSchema\<close> on the new document:
  \<^verbatim>\<open>reason\<close> is required and an enum.\<close>

definition report_reasons :: "string list" where
  "report_reasons = [''inappropriate'', ''offensive'', ''spam'', ''misinformation'', ''copyright'',
     ''illegal'', ''hate_speech'', ''violence'', ''harassment'', ''other'']"

definition validate_report :: "report \<Rightarrow> bool" where
  "validate_report r \<longleftrightarrow>
     (case r_reason r of None \<Rightarrow> False | Some x \<Rightarrow> x \<in> set report_reasons)"

record report_data =
  rd_reason :: "string option"
  rd_description :: "string option"

definition reportContent ::
  "object_id \<Rightarrow> object_id \<Rightarrow> report_data \<Rightarrow> db \<Rightarrow> (error + string \<times> report) \<times> db" where
  "reportContent userId contentId reportData d =
     (case findById_content contentId d of
        None \<Rightarrow> (Inl (Error ''Content not found''), d)
      | Some c \<Rightarrow>
          (case find (\<lambda>r. r_reporter r = userId \<and> r_content r = contentId) (reports d) of
             Some existingReport \<Rightarrow> (Inl (Error ''You have already reported this content''), d)
           | None \<Rightarrow>
               let rep = \<lparr>r_reporter = userId, r_content = contentId,
                          r_reason = rd_reason reportData,
                          r_description = rd_description reportData,
                          r_status = ''pending'', r_actionTaken = ''none''\<rparr>
               in if validate_report rep
                  then (Inr (''Content reported successfully'', rep), d\<lparr>reports := reports d @ [rep]\<rparr>)
                  else (Inl (ValidationError ''Report validation failed''), d)))"

text \<open>The balance a user has: that of the balance document, \<open>0\<close> without one.\<close>

definition current_balance :: "db \<Rightarrow> object_id \<Rightarrow> int" where
  "current_balance d u = (case creditBalances d u of None \<Rightarrow> 0 | Some b \<Rightarrow> balance b)"

text \<open>The database after a daily award to the balance \<open>b\<close> of user \<open>u\<close>: the balance
  and \<open>totalEarned\<close> raised by the configured amount, both dates set to the clock reading
  of the award, one \<^verbatim>\<open>earn\<close> transaction of category \<^verbatim>\<open>daily_login\<close> and one
  notification appended.\<close>

definition daily_award :: "object_id \<Rightarrow> credit_balance \<Rightarrow> date \<Rightarrow> int option \<Rightarrow> db \<Rightarrow> db" where
  "daily_award u b stamp env d =
     d\<lparr>creditBalances := (creditBalances d)(u \<mapsto>
          b\<lparr>balance := js_add (balance b) (dailyLoginCredits env),
            totalEarned := js_add (totalEarned b) (dailyLoginCredits env),
            lastUpdated := stamp,
            lastDailyLoginReward := Some stamp\<rparr>),
       creditTransactions := creditTransactions d @
          [\<lparr>tx_user = u, tx_type = ''earn'', tx_amount = dailyLoginCredits env,
            tx_balance = js_add (balance b) (dailyLoginCredits env),
            tx_description = ''Daily login reward'', tx_category = ''daily_login'',
            tx_createdAt = stamp\<rparr>],
       notifications := notifications d @
          [\<lparr>n_user = u, n_type = ''credit'', n_title = ''Daily Login Reward''\<rparr>]\<rparr>"

text \<open>Example databases: user 1 after an award of 10 credits; user 1 with a new balance
  document; a user 7 who has no balance document.\<close>

definition funded_db :: db where
  "funded_db = snd (addCredits 1 10 ''special_event'' ''Launch bonus'' 1000 empty_db)"

definition registered_db :: db where
  "registered_db = snd (getBalance 1 0 empty_db)"

definition unfunded_db :: db where
  "unfunded_db = empty_db\<lparr>users := [7 \<mapsto> \<lparr>pref_twitter = True, pref_reddit = True,
      pref_linkedin = False, pref_contentCategories = []\<rparr>]\<rparr>"

text \<open>The pairs (reporter, content) of the stored reports, and a run of report attempts,
  each continuing from the database the one before left.\<close>

definition report_pairs :: "db \<Rightarrow> (object_id \<times> object_id) list" where
  "report_pairs d = map (\<lambda>r. (r_reporter r, r_content r)) (reports d)"

fun run_reports :: "(object_id \<times> object_id \<times> report_data) list \<Rightarrow> db \<Rightarrow> db" where
  "run_reports [] d = d"
| "run_reports ((u, c, rd) # calls) d = run_reports calls (snd (reportContent u c rd d))"

text \<open>Example data: a Reddit link post fetched twice, the second time with more upvotes
  and its comments gone; a self post; the database after each fetch has been saved; a
  report and two sets of save options.\<close>

definition first_fetch :: reddit_post where
  "first_fetch =
     \<lparr>rp_id = ''abc123'', rp_author_name = ''alice'', rp_is_self = False, rp_is_video = False,
      rp_post_hint = None, rp_title = ''Release notes'', rp_selftext = None,
      rp_permalink = ''/r/technology/comments/abc123/release_notes/'',
      rp_ups = Some 5, rp_num_comments = Some 3, rp_created_utc = 1700000000,
      rp_subreddit = ''technology'', rp_link_flair_text = None\<rparr>"

definition second_fetch :: reddit_post where
  "second_fetch = first_fetch\<lparr>rp_title := ''Release notes, second edition'',
     rp_ups := Some 7, rp_num_comments := Some 0\<rparr>"

definition self_post :: reddit_post where
  "self_post = first_fetch\<lparr>rp_id := ''def456'', rp_is_self := True,
     rp_selftext := Some ''What do you think?''\<rparr>"

definition after_first_fetch :: db where
  "after_first_fetch =
     snd (savePostsToDatabase (normalizePosts [first_fetch] (Some ''technology'') 1000) 1000
            empty_db)"

definition after_second_fetch :: db where
  "after_second_fetch =
     snd (savePostsToDatabase (normalizePosts [second_fetch] (Some ''technology'') 5000) 5000
            after_first_fetch)"

definition spam_report :: report_data where
  "spam_report = \<lparr>rd_reason = Some ''spam'', rd_description = None\<rparr>"

definition default_save :: save_options where
  "default_save = \<lparr>so_folder = None, so_tags = None, so_notes = None\<rparr>"

definition later_save :: save_options where
  "later_save = \<lparr>so_folder = Some ''Later'', so_tags = Some [''read''], so_notes = None\<rparr>"

text \<open>User 2 saves the fetched post, removes it from the saved items, and saves it
  again.\<close>

definition saved_once :: db where
  "saved_once = snd (saveContent 2 1 default_save 7000 after_first_fetch)"

definition unsaved :: db where
  "unsaved = snd (unsaveContent 2 1 saved_once)"

definition saved_again :: db where
  "saved_again = snd (saveContent 2 1 later_save 9000 unsaved)"

text \<open>
  What one target of a batch contributes, and whether its fetch failed: for a subreddit
  the normalized posts of its listing, nothing when \<^verbatim>\<open>getSubreddit\<close> or the listing call
  throws; for a Twitter handle the normalized timeline, nothing when a call throws or the
  user is unknown.
\<close>

definition subreddit_posts ::
  "reddit_client \<Rightarrow> int \<Rightarrow> string \<Rightarrow> string \<Rightarrow> (reddit_post \<Rightarrow> bool) option \<Rightarrow> date
     \<Rightarrow> string \<Rightarrow> content_obj list" where
  "subreddit_posts client limit time sortKind postFilter now subreddit =
     (case fetch_listing client subreddit sortKind limit time of
        Inl e \<Rightarrow> []
      | Inr posts \<Rightarrow>
          normalizePosts (case postFilter of None \<Rightarrow> posts | Some f \<Rightarrow> filter f posts)
            (Some subreddit) now)"





text \<open>Clients for the examples: two that are offline, a Reddit client whose subreddit
  \<^verbatim>\<open>gadgets\<close> fails, one whose listing of \<^verbatim>\<open>r/all\<close> fails, one that has a self post,
  a Twitter client whose handle \<^verbatim>\<open>ghost\<close> and whose search time out; a tweet; a database
  with one Reddit post, one tweet and user 1; feed options.\<close>

definition offline_twitter :: twitter_client where
  "offline_twitter =
     \<lparr>userByUsername = (\<lambda>handle. Inl (Error ''offline'')),
      userTimeline = (\<lambda>userId maxResults. Inl (Error ''offline'')),
      search = (\<lambda>query maxResults. Inl (Error ''offline''))\<rparr>"

definition offline_reddit :: reddit_client where
  "offline_reddit = (\<lambda>subreddit kind limit time. Inl (Error ''offline''))"

definition example_author :: tw_user where
  "example_author = \<lparr>tw_id = ''u1'', tw_username = ''mkbhd'', tw_name = ''Marques''\<rparr>"

definition example_tweet_raw :: tweet where
  "example_tweet_raw =
     \<lparr>t_id = ''t1'', t_author_id = ''u1'', t_text = ''Shipping today'',
      t_hashtags = Some [''tech''], t_like_count = Some 4, t_reply_count = Some 1,
      t_retweet_count = Some 2, t_created_at = 1700000500000\<rparr>"

definition example_tweet :: content_obj where
  "example_tweet = normalize_tweet example_tweet_raw example_author 2000"


definition feed_db :: db where
  "feed_db =
     (snd (saveTweetsToDatabase [example_tweet] 2000 after_first_fetch))
       \<lparr>users := [1 \<mapsto> \<lparr>pref_twitter = True, pref_reddit = True, pref_linkedin = False,
                         pref_contentCategories = []\<rparr>]\<rparr>"

definition twitter_only :: feed_options where
  "twitter_only = \<lparr>fo_page = None, fo_limit = None, fo_sources = Some [''twitter''],
     fo_categories = None, fo_sortBy = None, fo_isRefresh = None\<rparr>"

definition empty_sources :: feed_options where
  "empty_sources = twitter_only\<lparr>fo_sources := Some []\<rparr>"






text \<open>
  The amount that an operation applies to the balance of user \<open>u\<close>, in absolute value,
  and the sum of these amounts over a sequence of operations.
\<close>

fun op_volume :: "object_id \<Rightarrow> credit_op \<Rightarrow> int" where
  "op_volume u (GetBalance u' now) = 0"
| "op_volume u (AddCredits u' a c ds now) = (if u' = u then \<bar>a\<bar> else 0)"
| "op_volume u (DeductCredits u' a c ds now) = (if u' = u then \<bar>a\<bar> else 0)"
| "op_volume u (AdjustCredits u' a ds admin now) = (if u' = u then \<bar>a\<bar> else 0)"
| "op_volume u (DailyLogin u' now stamp env) = (if u' = u then \<bar>dailyLoginCredits env\<bar> else 0)"

definition ops_volume :: "object_id \<Rightarrow> credit_op list \<Rightarrow> int" where
  "ops_volume u ops = sum_list (map (op_volume u) ops)"

text \<open>
  The ledger invariant of user \<open>u\<close>, with a bound \<open>v\<close> on the totals: without a balance
  document the user has no transactions; with one, \<open>balance = totalEarned - totalSpent\<close>,
  the amounts of the user's transactions sum to the balance, and the two totals together
  stay within \<open>v\<close>.
\<close>

definition ledger_inv :: "object_id \<Rightarrow> int \<Rightarrow> db \<Rightarrow> bool" where
  "ledger_inv u v d \<longleftrightarrow>
     0 \<le> v \<and>
     (creditBalances d u = None \<longrightarrow> user_transactions d u = []) \<and>
     (\<forall>b. creditBalances d u = Some b \<longrightarrow>
            balance b = totalEarned b - totalSpent b \<and>
            sum_list (map tx_amount (user_transactions d u)) = balance b \<and>
            \<bar>totalEarned b\<bar> + \<bar>totalSpent b\<bar> \<le> v)"

text \<open>
  Operations with amounts at the edge of the exact range: three adjustments of
  \<open>2^53\<close>, \<open>-2^52\<close> and \<open>1\<close>, and a database in which user 1 holds \<open>2^53 + 2\<close>
  credits.
\<close>

definition rounding_ops :: "credit_op list" where
  "rounding_ops =
     [AdjustCredits 1 9007199254740992 ''Grant'' 9 1000,
      AdjustCredits 1 (- 4503599627370496) ''Correction'' 9 2000,
      AdjustCredits 1 1 ''Bonus'' 9 3000]"

definition large_db :: db where
  "large_db = snd (adjustCredits 1 9007199254740994 ''Grant'' 9 1000 empty_db)"

text \<open>The definitions that a run of credit operations unfolds to.\<close>

lemmas ledger_defs =
  addCredits_def deductCredits_def adjustCredits_def getBalance_def
  handleDailyLoginReward_def cb_addCredits_def cb_deductCredits_def cb_adjustCredits_def
  create_balance_def save_balance_def save_transaction_def validate_transaction_def
  transaction_types_def transaction_categories_def createNotification_def
  dailyLoginCredits_def eligible_def js_add_def js_sub_def parseInt_def

text \<open>The definitions that saving a normalized object unfolds to.\<close>

lemmas content_defs =
  savePostsToDatabase_def saveTweetsToDatabase_def save_one_def findOne_content_def
  insert_content_def save_content_def updateEngagementMetrics_def refreshCache_def
  validate_content_def content_sources_def content_types_def new_Content_def fresh_id_def
  js_or_def js_add_def normalize_post_def reddit_contentType_def

text \<open>The definitions that the feed and batch examples unfold to.\<close>

lemmas feed_defs =
  getUserFeed_def feed_query_def sort_feed_def skip_limit_def ceil_div_def js_sub_def js_mul_def
  getUserSavedContentIds_def getEnabledSourcesFromPreferences_def
  feed_db_def example_tweet_def example_tweet_raw_def example_author_def
  normalize_tweet_def int_or_def
  after_first_fetch_def first_fetch_def twitter_only_def empty_sources_def



section \<open>The credit ledger\<close>

subsection \<open>Exact arithmetic up to \<open>2^53\<close>\<close>

lemma excess_bits_small: "m < 2 ^ 53 \<Longrightarrow> excess_bits m = 0"
  by (simp add: excess_bits.simps)

lemma excess_bits_limit: "excess_bits 9007199254740992 = Suc 0"
  by code_simp

lemma round_double_exact: "\<bar>n\<bar> \<le> 2 ^ 53 \<Longrightarrow> round_double n = n"
proof (cases "\<bar>n\<bar> < 2 ^ 53")
  case True
  then show ?thesis
    by (simp add: round_double_def excess_bits_small Let_def abs_sgn mult.commute)
next
  case False
  assume "\<bar>n\<bar> \<le> 2 ^ 53"
  with False have "\<bar>n\<bar> = 2 ^ 53" by simp
  then show ?thesis
    by (cases "n < 0") (simp_all add: round_double_def excess_bits_limit Let_def)
qed

lemma js_add_exact: "\<bar>a + b\<bar> \<le> 2 ^ 53 \<Longrightarrow> js_add a b = a + b"
  by (simp add: js_add_def round_double_exact)

lemma js_sub_exact: "\<bar>a - b\<bar> \<le> 2 ^ 53 \<Longrightarrow> js_sub a b = a - b"
  by (simp add: js_sub_def round_double_exact)

lemma parseInt_exact: "\<bar>n\<bar> < 10 ^ 21 \<Longrightarrow> parseInt n = n"
  by (simp add: parseInt_def)

lemma round_double_tie: "round_double 9007199254740993 = 9007199254740992"
  by code_simp

lemma toString_first_digit_1e21: "toString_first_digit 1000000000000000000000 = 1"
  by code_simp

subsection \<open>Every successful operation keeps the ledger invariant\<close>

lemma ledger_inv_empty: "ledger_inv u 0 empty_db"
  by (simp add: ledger_inv_def empty_db_def user_transactions_def)

lemma ledger_inv_mono: "ledger_inv u v d \<Longrightarrow> v \<le> w \<Longrightarrow> ledger_inv u w d"
  by (fastforce simp: ledger_inv_def)

lemma ledger_inv_notify: "ledger_inv u v (createNotification n d) = ledger_inv u v d"
  by (simp add: ledger_inv_def createNotification_def user_transactions_def)

lemma ledger_inv_create:
  assumes "ledger_inv u v d" "creditBalances d u' = None"
  shows "ledger_inv u v (snd (create_balance u' now d))"
  using assms
  by (auto simp add: ledger_inv_def create_balance_def save_balance_def user_transactions_def Let_def)

lemma ledger_inv_getBalance:
  "ledger_inv u v d \<Longrightarrow> ledger_inv u v (snd (getBalance u' now d))"
  by (auto simp: getBalance_def ledger_inv_create split: option.splits)

lemma getBalance_lookup:
  "creditBalances (snd (getBalance u now d)) u = Some (fst (getBalance u now d))"
  by (auto simp: getBalance_def create_balance_def save_balance_def Let_def split: option.splits)

lemma load_or_create:
  assumes "ledger_inv u v d"
    "(case creditBalances d u' of Some b \<Rightarrow> (b, d) | None \<Rightarrow> create_balance u' now d) = (b0, d0)"
  shows "ledger_inv u v d0 \<and> creditBalances d0 u' = Some b0"
  using assms ledger_inv_getBalance [of u v d u' now] getBalance_lookup [of u' now d]
  by (simp add: getBalance_def)

lemma ledger_inv_bounds:
  assumes "ledger_inv u v d" "creditBalances d u = Some b"
  shows "balance b = totalEarned b - totalSpent b" "\<bar>totalEarned b\<bar> + \<bar>totalSpent b\<bar> \<le> v"
    "\<bar>balance b\<bar> \<le> v"
  using assms by (auto simp: ledger_inv_def)

lemma ledger_inv_step:
  assumes "ledger_inv u v d" "creditBalances d u' = Some b"
    "d' = d\<lparr>creditBalances := (creditBalances d)(u' \<mapsto> b'),
              creditTransactions := creditTransactions d @ [t]\<rparr>"
    "tx_user t = u'" "v \<le> w"
    "u' = u \<Longrightarrow> tx_amount t = balance b' - balance b \<and>
       balance b' = totalEarned b' - totalSpent b' \<and>
       \<bar>totalEarned b'\<bar> + \<bar>totalSpent b'\<bar> \<le> w"
  shows "ledger_inv u w d'"
proof (cases "u' = u")
  case True
  with assms(6) have f: "tx_amount t = balance b' - balance b"
    "balance b' = totalEarned b' - totalSpent b'" "\<bar>totalEarned b'\<bar> + \<bar>totalSpent b'\<bar> \<le> w"
    by simp_all
  from assms(1,2) True have "sum_list (map tx_amount (user_transactions d u)) = balance b"
    by (simp add: ledger_inv_def)
  with assms(1,3,4,5) True f show ?thesis
    by (simp add: ledger_inv_def user_transactions_def)
next
  case False
  with assms(1,3,4) have "ledger_inv u v d'"
    by (simp add: ledger_inv_def user_transactions_def)
  then show ?thesis using assms(5) by (rule ledger_inv_mono)
qed

lemma cb_addCredits_shape:
  assumes "cb_addCredits u b a c ds now d = (Inr t, b', d')"
  shows "balance b' = js_add (balance b) a" "totalEarned b' = js_add (totalEarned b) a"
    "totalSpent b' = totalSpent b" "tx_user t = u" "tx_amount t = a"
    "d' = d\<lparr>creditBalances := (creditBalances d)(u \<mapsto> b'),
              creditTransactions := creditTransactions d @ [t]\<rparr>"
  using assms
  by (auto simp: cb_addCredits_def Let_def save_transaction_def save_balance_def
           split: if_splits)

lemma cb_deductCredits_shape:
  assumes "cb_deductCredits u b a c ds now d = (Inr t, b', d')"
  shows "balance b' = js_sub (balance b) a" "totalSpent b' = js_add (totalSpent b) a"
    "totalEarned b' = totalEarned b" "tx_user t = u" "tx_amount t = - a"
    "d' = d\<lparr>creditBalances := (creditBalances d)(u \<mapsto> b'),
              creditTransactions := creditTransactions d @ [t]\<rparr>"
  using assms
  by (auto simp: cb_deductCredits_def Let_def save_transaction_def save_balance_def
           split: if_splits)

lemma cb_adjustCredits_shape:
  assumes "cb_adjustCredits u b a ds now d = (Inr t, b', d')"
  shows "balance b' = js_add (balance b) a"
    "totalEarned b' = (if a > 0 then js_add (totalEarned b) a else totalEarned b)"
    "totalSpent b' = (if a > 0 then totalSpent b else js_add (totalSpent b) \<bar>a\<bar>)"
    "tx_user t = u" "tx_amount t = a"
    "d' = d\<lparr>creditBalances := (creditBalances d)(u \<mapsto> b'),
              creditTransactions := creditTransactions d @ [t]\<rparr>"
  using assms
  by (auto simp: cb_adjustCredits_def Let_def save_transaction_def save_balance_def
           split: if_splits)

lemma ledger_inv_cb_addCredits:
  assumes "ledger_inv u v d" "creditBalances d u' = Some b"
    "cb_addCredits u' b a c ds now d = (Inr t, b', d')"
    "v + (if u' = u then \<bar>a\<bar> else 0) \<le> 2 ^ 53"
  shows "ledger_inv u (v + (if u' = u then \<bar>a\<bar> else 0)) d'"
proof -
  note sh = cb_addCredits_shape [OF assms(3)]
  have "u' = u \<Longrightarrow> tx_amount t = balance b' - balance b \<and>
       balance b' = totalEarned b' - totalSpent b' \<and>
       \<bar>totalEarned b'\<bar> + \<bar>totalSpent b'\<bar> \<le> v + (if u' = u then \<bar>a\<bar> else 0)"
  proof -
    assume u: "u' = u"
    note bs = ledger_inv_bounds [OF assms(1) assms(2) [unfolded u]]
    from assms(4) u have lim: "v + \<bar>a\<bar> \<le> 2 ^ 53" by simp
    from bs lim have "\<bar>balance b + a\<bar> \<le> 2 ^ 53" "\<bar>totalEarned b + a\<bar> \<le> 2 ^ 53"
      by linarith+
    then have "js_add (balance b) a = balance b + a" "js_add (totalEarned b) a = totalEarned b + a"
      by (simp_all add: js_add_exact)
    with sh bs u show ?thesis
      by simp
  qed
  from ledger_inv_step [OF assms(1,2) sh(6) sh(4) _ this] show ?thesis
    by simp
qed

lemma ledger_inv_cb_deductCredits:
  assumes "ledger_inv u v d" "creditBalances d u' = Some b"
    "cb_deductCredits u' b a c ds now d = (Inr t, b', d')"
    "v + (if u' = u then \<bar>a\<bar> else 0) \<le> 2 ^ 53"
  shows "ledger_inv u (v + (if u' = u then \<bar>a\<bar> else 0)) d'"
proof -
  note sh = cb_deductCredits_shape [OF assms(3)]
  have "u' = u \<Longrightarrow> tx_amount t = balance b' - balance b \<and>
       balance b' = totalEarned b' - totalSpent b' \<and>
       \<bar>totalEarned b'\<bar> + \<bar>totalSpent b'\<bar> \<le> v + (if u' = u then \<bar>a\<bar> else 0)"
  proof -
    assume u: "u' = u"
    note bs = ledger_inv_bounds [OF assms(1) assms(2) [unfolded u]]
    from assms(4) u have lim: "v + \<bar>a\<bar> \<le> 2 ^ 53" by simp
    from bs lim have "\<bar>balance b - a\<bar> \<le> 2 ^ 53" "\<bar>totalSpent b + a\<bar> \<le> 2 ^ 53"
      by linarith+
    then have "js_sub (balance b) a = balance b - a" "js_add (totalSpent b) a = totalSpent b + a"
      by (simp_all add: js_add_exact js_sub_exact)
    with sh bs u show ?thesis
      by simp
  qed
  from ledger_inv_step [OF assms(1,2) sh(6) sh(4) _ this] show ?thesis
    by simp
qed

lemma ledger_inv_cb_adjustCredits:
  assumes "ledger_inv u v d" "creditBalances d u' = Some b"
    "cb_adjustCredits u' b a ds now d = (Inr t, b', d')"
    "v + (if u' = u then \<bar>a\<bar> else 0) \<le> 2 ^ 53"
  shows "ledger_inv u (v + (if u' = u then \<bar>a\<bar> else 0)) d'"
proof -
  note sh = cb_adjustCredits_shape [OF assms(3)]
  have "u' = u \<Longrightarrow> tx_amount t = balance b' - balance b \<and>
       balance b' = totalEarned b' - totalSpent b' \<and>
       \<bar>totalEarned b'\<bar> + \<bar>totalSpent b'\<bar> \<le> v + (if u' = u then \<bar>a\<bar> else 0)"
  proof -
    assume u: "u' = u"
    note bs = ledger_inv_bounds [OF assms(1) assms(2) [unfolded u]]
    from assms(4) u have lim: "v + \<bar>a\<bar> \<le> 2 ^ 53" by simp
    from bs lim have "\<bar>balance b + a\<bar> \<le> 2 ^ 53" "\<bar>totalEarned b + a\<bar> \<le> 2 ^ 53"
      "\<bar>totalSpent b + \<bar>a\<bar>\<bar> \<le> 2 ^ 53"
      by linarith+
    then have ex: "js_add (balance b) a = balance b + a"
      "js_add (totalEarned b) a = totalEarned b + a"
      "js_add (totalSpent b) \<bar>a\<bar> = totalSpent b + \<bar>a\<bar>"
      by (simp_all add: js_add_exact)
    show ?thesis
    proof (cases "a > 0")
      case True
      with sh bs u ex show ?thesis by simp
    next
      case False
      with sh bs u ex show ?thesis by simp
    qed
  qed
  from ledger_inv_step [OF assms(1,2) sh(6) sh(4) _ this] show ?thesis
    by simp
qed

lemma volume_parseInt:
  assumes "ledger_inv u v d" "v + (if u' = u then \<bar>a\<bar> else 0) \<le> 2 ^ 53"
  shows "(if u' = u then \<bar>parseInt a\<bar> else 0) = (if u' = u then \<bar>a\<bar> else 0)"
proof (cases "u' = u")
  case True
  from assms True have "\<bar>a\<bar> \<le> 2 ^ 53"
    by (simp add: ledger_inv_def)
  then have "\<bar>a\<bar> < 10 ^ 21" by simp
  with True show ?thesis by (simp add: parseInt_exact)
next
  case False
  then show ?thesis by simp
qed

lemma ledger_inv_addCredits:
  assumes "ledger_inv u v d" "addCredits u' a c ds now d = (Inr r, d')"
    "v + (if u' = u then \<bar>a\<bar> else 0) \<le> 2 ^ 53"
  shows "ledger_inv u (v + (if u' = u then \<bar>a\<bar> else 0)) d'"
proof -
  note vol = volume_parseInt [OF assms(1,3)]
  obtain b0 d0 where l: "(case creditBalances d u' of Some b \<Rightarrow> (b, d)
      | None \<Rightarrow> create_balance u' now d) = (b0, d0)"
    by (cases "case creditBalances d u' of Some b \<Rightarrow> (b, d) | None \<Rightarrow> create_balance u' now d")
  obtain r1 b1 d1 where m: "cb_addCredits u' b0 (parseInt a) c ds now d0 = (r1, b1, d1)"
    by (cases "cb_addCredits u' b0 (parseInt a) c ds now d0")
  from assms(2) l m obtain t where r1: "r1 = Inr t" and d': "d' = createNotification
      \<lparr>n_user = u', n_type = ''credit'', n_title = ''Credits Added''\<rparr> d1"
    by (auto simp: addCredits_def Let_def split: if_splits sum.splits)
  from load_or_create [OF assms(1) l] have i0: "ledger_inv u v d0" and l0: "creditBalances d0 u' = Some b0"
    by simp_all
  from assms(3) vol have "v + (if u' = u then \<bar>parseInt a\<bar> else 0) \<le> 2 ^ 53"
    by simp
  from ledger_inv_cb_addCredits [OF i0 l0 m [unfolded r1] this] vol
  have "ledger_inv u (v + (if u' = u then \<bar>a\<bar> else 0)) d1"
    by simp
  with d' show ?thesis by (simp add: ledger_inv_notify)
qed

lemma ledger_inv_deductCredits:
  assumes "ledger_inv u v d" "deductCredits u' a c ds now d = (Inr r, d')"
    "v + (if u' = u then \<bar>a\<bar> else 0) \<le> 2 ^ 53"
  shows "ledger_inv u (v + (if u' = u then \<bar>a\<bar> else 0)) d'"
proof -
  note vol = volume_parseInt [OF assms(1,3)]
  from assms(2) obtain b0 where l: "creditBalances d u' = Some b0"
    by (auto simp: deductCredits_def Let_def split: if_splits option.splits)
  obtain r1 b1 d1 where m: "cb_deductCredits u' b0 (parseInt a) c ds now d = (r1, b1, d1)"
    by (cases "cb_deductCredits u' b0 (parseInt a) c ds now d")
  from assms(2) l m obtain t where r1: "r1 = Inr t" and d': "d' = createNotification
      \<lparr>n_user = u', n_type = ''credit'', n_title = ''Credits Deducted''\<rparr> d1"
    by (auto simp: deductCredits_def Let_def split: if_splits sum.splits)
  from assms(3) vol have "v + (if u' = u then \<bar>parseInt a\<bar> else 0) \<le> 2 ^ 53"
    by simp
  from ledger_inv_cb_deductCredits [OF assms(1) l m [unfolded r1] this] vol
  have "ledger_inv u (v + (if u' = u then \<bar>a\<bar> else 0)) d1"
    by simp
  with d' show ?thesis by (simp add: ledger_inv_notify)
qed

lemma ledger_inv_adjustCredits:
  assumes "ledger_inv u v d" "adjustCredits u' a ds admin now d = (Inr r, d')"
    "v + (if u' = u then \<bar>a\<bar> else 0) \<le> 2 ^ 53"
  shows "ledger_inv u (v + (if u' = u then \<bar>a\<bar> else 0)) d'"
proof -
  note vol = volume_parseInt [OF assms(1,3)]
  obtain b0 d0 where l: "(case creditBalances d u' of Some b \<Rightarrow> (b, d)
      | None \<Rightarrow> create_balance u' now d) = (b0, d0)"
    by (cases "case creditBalances d u' of Some b \<Rightarrow> (b, d) | None \<Rightarrow> create_balance u' now d")
  obtain r1 b1 d1 where m: "cb_adjustCredits u' b0 (parseInt a) ds now d0 = (r1, b1, d1)"
    by (cases "cb_adjustCredits u' b0 (parseInt a) ds now d0")
  from assms(2) l m obtain t where r1: "r1 = Inr t" and d': "d' = createNotification
      \<lparr>n_user = u', n_type = ''credit'', n_title = ''Credit Balance Adjusted''\<rparr> d1"
    by (auto simp: adjustCredits_def Let_def split: if_splits sum.splits)
  from load_or_create [OF assms(1) l] have i0: "ledger_inv u v d0" and l0: "creditBalances d0 u' = Some b0"
    by simp_all
  from assms(3) vol have "v + (if u' = u then \<bar>parseInt a\<bar> else 0) \<le> 2 ^ 53"
    by simp
  from ledger_inv_cb_adjustCredits [OF i0 l0 m [unfolded r1] this] vol
  have "ledger_inv u (v + (if u' = u then \<bar>a\<bar> else 0)) d1"
    by simp
  with d' show ?thesis by (simp add: ledger_inv_notify)
qed

lemma cb_addCredits_valid:
  assumes "c \<in> set transaction_categories" "ds \<noteq> []"
  shows "\<exists>t b' d'. cb_addCredits u b a c ds now d = (Inr t, b', d')"
  using assms
  by (simp add: cb_addCredits_def Let_def save_transaction_def validate_transaction_def
        transaction_types_def)

lemma ledger_inv_handleDailyLoginReward:
  assumes "ledger_inv u v d"
    "v + (if u' = u then \<bar>dailyLoginCredits env\<bar> else 0) \<le> 2 ^ 53"
  shows "ledger_inv u (v + (if u' = u then \<bar>dailyLoginCredits env\<bar> else 0))
           (snd (handleDailyLoginReward u' now stamp env d))"
proof -
  have le: "v \<le> v + (if u' = u then \<bar>dailyLoginCredits env\<bar> else 0)"
    by simp
  note same = ledger_inv_mono [OF assms(1) le]
  show ?thesis
  proof (cases "creditBalances d u'")
    case None
    with same show ?thesis by (simp add: handleDailyLoginReward_def)
  next
    case (Some b)
    obtain t b' d' where ok: "cb_addCredits u' b (dailyLoginCredits env) ''daily_login''
        ''Daily login reward'' stamp d = (Inr t, b', d')"
      using cb_addCredits_valid [of "''daily_login''" "''Daily login reward''" u' b
          "dailyLoginCredits env" stamp d]
      by (auto simp: transaction_categories_def)
    from ledger_inv_cb_addCredits [OF assms(1) Some ok assms(2)]
    have "ledger_inv u (v + (if u' = u then \<bar>dailyLoginCredits env\<bar> else 0)) d'" .
    with same Some ok show ?thesis
      by (simp add: handleDailyLoginReward_def Let_def ledger_inv_notify)
  qed
qed

lemma ledger_inv_exec_op:
  assumes "ledger_inv u v d" "exec_op x d = (Inr r, d')" "v + op_volume u x \<le> 2 ^ 53"
  shows "ledger_inv u (v + op_volume u x) d'"
proof (cases x)
  case (GetBalance u' now)
  with assms ledger_inv_getBalance [of u v d u' now] show ?thesis by auto
next
  case (AddCredits u' a c ds now)
  with assms(2) obtain r0 where "addCredits u' a c ds now d = (Inr r0, d')"
    by (cases "addCredits u' a c ds now d"; cases "fst (addCredits u' a c ds now d)") auto
  from ledger_inv_addCredits [OF assms(1) this] assms(3) AddCredits show ?thesis by simp
next
  case (DeductCredits u' a c ds now)
  with assms(2) obtain r0 where "deductCredits u' a c ds now d = (Inr r0, d')"
    by (cases "deductCredits u' a c ds now d"; cases "fst (deductCredits u' a c ds now d)") auto
  from ledger_inv_deductCredits [OF assms(1) this] assms(3) DeductCredits show ?thesis by simp
next
  case (AdjustCredits u' a ds admin now)
  with assms(2) obtain r0 where "adjustCredits u' a ds admin now d = (Inr r0, d')"
    by (cases "adjustCredits u' a ds admin now d";
        cases "fst (adjustCredits u' a ds admin now d)") auto
  from ledger_inv_adjustCredits [OF assms(1) this] assms(3) AdjustCredits show ?thesis by simp
next
  case (DailyLogin u' now stamp env)
  with assms ledger_inv_handleDailyLoginReward [of u v d u' env now stamp] show ?thesis by auto
qed

lemma op_volume_nonneg: "0 \<le> op_volume u x"
  by (cases x) simp_all

lemma ops_volume_nonneg: "0 \<le> ops_volume u xs"
  unfolding ops_volume_def
  by (induction xs) (simp_all add: op_volume_nonneg)

lemma ledger_inv_run_ops:
  "ledger_inv u v d \<Longrightarrow> run_ops xs d = Some d' \<Longrightarrow> v + ops_volume u xs \<le> 2 ^ 53 \<Longrightarrow>
     ledger_inv u (v + ops_volume u xs) d'"
proof (induction xs arbitrary: d v)
  case Nil
  then show ?case by (simp add: ops_volume_def)
next
  case (Cons x xs)
  from Cons.prems(2) obtain r d1 where step: "exec_op x d = (Inr r, d1)"
    and rest: "run_ops xs d1 = Some d'"
    by (auto split: prod.splits sum.splits)
  have split: "ops_volume u (x # xs) = op_volume u x + ops_volume u xs"
    by (simp add: ops_volume_def)
  from Cons.prems(3) ops_volume_nonneg [of u xs] have "v + op_volume u x \<le> 2 ^ 53"
    by (simp add: split)
  from ledger_inv_exec_op [OF Cons.prems(1) step this]
  have i1: "ledger_inv u (v + op_volume u x) d1" .
  from Cons.prems(3) have "v + op_volume u x + ops_volume u xs \<le> 2 ^ 53"
    by (simp add: split)
  from Cons.IH [OF i1 rest this] show ?case
    by (simp add: split add.assoc)
qed

lemma sum_list_mset_eq:
  "mset xs = mset ys \<Longrightarrow> sum_list (map f xs) = (sum_list (map f ys) :: int)"
proof -
  assume "mset xs = mset ys"
  then have "mset (map f xs) = mset (map f ys)" by simp
  then have "sum_mset (mset (map f xs)) = sum_mset (mset (map f ys))" by (rule arg_cong)
  then show ?thesis by (simp only: sum_mset_sum_list)
qed

lemma foldl_amounts: "foldl (\<lambda>acc t. acc + tx_amount t) a ts = a + sum_list (map tx_amount ts)"
  by (induction ts arbitrary: a) auto

text \<open>
  Claim C1, as amended. After any finite sequence of successful credit operations
  (creation of the balance on first use, \<open>addCredits\<close>, \<open>deductCredits\<close>,
  \<open>adjustCredits\<close>, the daily-login award) on the empty database, in which the amounts
  applied to a user add up to at most \<open>2^53\<close> in absolute value, the stored balance of
  that user equals \<open>totalEarned - totalSpent\<close>, and adding up the signed amounts of the
  user's transactions in \<open>createdAt\<close> order, starting from zero, gives the stored
  balance.
\<close>

theorem ledger_balance_invariant:
  assumes "run_ops ops empty_db = Some d" and "creditBalances d u = Some b"
    and "ops_volume u ops \<le> 2 ^ 53"
  shows "balance b = totalEarned b - totalSpent b \<and>
         foldl (\<lambda>acc t. acc + tx_amount t) 0
           (sort_key tx_createdAt (user_transactions d u)) = balance b"
proof -
  from assms(3) have "0 + ops_volume u ops \<le> 2 ^ 53" by simp
  from ledger_inv_run_ops [OF ledger_inv_empty assms(1) this]
  have inv: "ledger_inv u (ops_volume u ops) d" by simp
  have "sum_list (map tx_amount (sort_key tx_createdAt (user_transactions d u)))
        = sum_list (map tx_amount (user_transactions d u))"
    by (rule sum_list_mset_eq) simp
  with inv assms(2) show ?thesis
    by (simp add: ledger_inv_def foldl_amounts)
qed

text \<open>
  The scenario of the specification with a daily login added: 50 earned, 20 spent, an
  adjustment of -100 and a daily reward of 10 leave the balance at -60.
\<close>

theorem ledger_balance_invariant_witness:
  "(case run_ops [AddCredits 1 50 ''special_event'' ''Launch bonus'' 1000,
                  DeductCredits 1 20 ''feature_usage'' ''Export'' 2000,
                  AdjustCredits 1 (- 100) ''Penalty'' 9 3000,
                  DailyLogin 1 4000 4001 None] empty_db of
      None \<Rightarrow> False
    | Some d \<Rightarrow>
        (case creditBalances d 1 of
           None \<Rightarrow> False
         | Some b \<Rightarrow>
             balance b = - 60 \<and> totalEarned b = 60 \<and> totalSpent b = 120 \<and>
             balance b = totalEarned b - totalSpent b \<and>
             foldl (\<lambda>acc t. acc + tx_amount t) 0
               (sort_key tx_createdAt (user_transactions d 1)) = balance b))"
proof -
  let ?ops = "[AddCredits 1 50 ''special_event'' ''Launch bonus'' 1000,
               DeductCredits 1 20 ''feature_usage'' ''Export'' 2000,
               AdjustCredits 1 (- 100) ''Penalty'' 9 3000,
               DailyLogin 1 4000 4001 None]"
  let ?b = "\<lparr>balance = - 60, totalEarned = 60, totalSpent = 120,
             lastDailyLoginReward = Some 4001, lastUpdated = 4001\<rparr>"
  have "run_ops ?ops empty_db \<noteq> None"
    by (simp add: ledger_defs round_double_exact empty_db_def Let_def)
  then obtain d where run: "run_ops ?ops empty_db = Some d"
    by auto
  have "creditBalances (the (run_ops ?ops empty_db)) 1 = Some ?b"
    by (simp add: ledger_defs round_double_exact empty_db_def Let_def)
  with run have look: "creditBalances d 1 = Some ?b"
    by simp
  have vol: "ops_volume 1 ?ops \<le> 2 ^ 53"
    by (simp add: ops_volume_def dailyLoginCredits_def)
  from ledger_balance_invariant [OF run look vol] run look show ?thesis
    by simp
qed

text \<open>
  The claim as stated fails beyond the exact range of a double. Three successful
  adjustments of \<open>2^53\<close>, \<open>-2^52\<close> and \<open>1\<close> leave a balance of \<open>2^52 + 1\<close>, while
  \<open>totalEarned\<close> has stayed at \<open>2^53\<close>, the nearest double of \<open>2^53 + 1\<close>, and
  \<open>totalSpent\<close> is \<open>2^52\<close>.
\<close>

theorem ledger_rounding_counterexample:
  "run_ops rounding_ops empty_db \<noteq> None \<and>
   creditBalances (the (run_ops rounding_ops empty_db)) 1 =
     Some \<lparr>balance = 4503599627370497, totalEarned = 9007199254740992,
            totalSpent = 4503599627370496, lastDailyLoginReward = None, lastUpdated = 3000\<rparr> \<and>
   (4503599627370497::int) \<noteq> 9007199254740992 - 4503599627370496"
  by (simp add: rounding_ops_def ledger_defs round_double_exact round_double_tie empty_db_def
        Let_def)

subsection \<open>Deduction\<close>

lemma deductCredits_insufficient:
  assumes "creditBalances d u = Some b" "0 < amount" "amount < 10 ^ 21" "balance b < amount"
  shows "deductCredits u amount category description now d
           = (Inl (Error ''Insufficient credits''), d)"
proof -
  from assms(2,3) have "parseInt amount = amount"
    by (simp add: parseInt_exact)
  with assms show ?thesis
    by (simp add: deductCredits_def Let_def)
qed

lemma deductCredits_sufficient:
  assumes "creditBalances d u = Some b" "0 < amount" "amount \<le> balance b"
    "category \<in> set transaction_categories" "description \<noteq> []"
    "balance b \<le> 2 ^ 53" "\<bar>totalSpent b + amount\<bar> \<le> 2 ^ 53"
  shows "deductCredits u amount category description now d =
     (Inr (b\<lparr>balance := balance b - amount, totalSpent := totalSpent b + amount,
              lastUpdated := now\<rparr>,
           \<lparr>tx_user = u, tx_type = ''spend'', tx_amount = - amount,
            tx_balance = balance b - amount, tx_description = description,
            tx_category = category, tx_createdAt = now\<rparr>),
      d\<lparr>creditBalances := (creditBalances d)(u \<mapsto>
            b\<lparr>balance := balance b - amount, totalSpent := totalSpent b + amount,
              lastUpdated := now\<rparr>),
        creditTransactions := creditTransactions d @
           [\<lparr>tx_user = u, tx_type = ''spend'', tx_amount = - amount,
             tx_balance = balance b - amount, tx_description = description,
             tx_category = category, tx_createdAt = now\<rparr>],
        notifications := notifications d @
           [\<lparr>n_user = u, n_type = ''credit'', n_title = ''Credits Deducted''\<rparr>]\<rparr>)"
proof -
  from assms(2,3,6) have "\<bar>amount\<bar> < 10 ^ 21" by simp
  then have p: "parseInt amount = amount"
    by (rule parseInt_exact)
  from assms(2,3,6) have "\<bar>balance b - amount\<bar> \<le> 2 ^ 53" by simp
  then have s: "js_sub (balance b) amount = balance b - amount"
    by (rule js_sub_exact)
  from assms(7) have a: "js_add (totalSpent b) amount = totalSpent b + amount"
    by (rule js_add_exact)
  from assms(1-5) p s a show ?thesis
    by (simp add: deductCredits_def cb_deductCredits_def save_balance_def save_transaction_def
        validate_transaction_def transaction_types_def createNotification_def Let_def)
qed

lemma funded_db_balance:
  "creditBalances funded_db 1 = Some \<lparr>balance = 10, totalEarned = 10, totalSpent = 0,
      lastDailyLoginReward = None, lastUpdated = 1000\<rparr>"
  by (simp add: funded_db_def ledger_defs round_double_exact empty_db_def Let_def)

lemma large_db_balance:
  "creditBalances large_db 1 =
     Some \<lparr>balance = 9007199254740994, totalEarned = 9007199254740994, totalSpent = 0,
            lastDailyLoginReward = None, lastUpdated = 1000\<rparr>"
proof -
  have "round_double 9007199254740994 = 9007199254740994"
    by code_simp
  then show ?thesis
    by (simp add: large_db_def ledger_defs empty_db_def Let_def)
qed

text \<open>
  Claim C2, as amended. For a user with a balance document and a positive amount below
  \<open>10^21\<close>: \<open>deductCredits\<close> fails with \<^verbatim>\<open>Insufficient credits\<close> whenever the amount
  exceeds the balance, leaving the whole database as it was; when the amount is at most
  the balance, the category is one of the seven transaction categories, the description
  is not empty, and the balance and the new \<open>totalSpent\<close> do not exceed \<open>2^53\<close> in
  magnitude, it succeeds, lowers \<open>balance\<close> by the amount, raises \<open>totalSpent\<close> by it,
  leaves \<open>totalEarned\<close>, and appends exactly one \<^verbatim>\<open>spend\<close> transaction whose amount
  is the negative of the deducted value.
\<close>

theorem deductCredits_floor:
  assumes "creditBalances d u = Some b" and "0 < amount" and "amount < 10 ^ 21"
  shows "(balance b < amount \<longrightarrow>
            deductCredits u amount category description now d
              = (Inl (Error ''Insufficient credits''), d)) \<and>
         (amount \<le> balance b \<and> category \<in> set transaction_categories \<and> description \<noteq> [] \<and>
          balance b \<le> 2 ^ 53 \<and> \<bar>totalSpent b + amount\<bar> \<le> 2 ^ 53 \<longrightarrow>
            (\<exists>b' t d'. deductCredits u amount category description now d = (Inr (b', t), d') \<and>
               balance b' = balance b - amount \<and>
               totalSpent b' = totalSpent b + amount \<and>
               totalEarned b' = totalEarned b \<and>
               creditBalances d' = (creditBalances d)(u \<mapsto> b') \<and>
               creditTransactions d' = creditTransactions d @ [t] \<and>
               tx_user t = u \<and> tx_type t = ''spend'' \<and> tx_amount t = - amount \<and>
               tx_balance t = balance b' \<and> tx_category t = category \<and>
               tx_description t = description))"
proof (intro conjI impI)
  assume "balance b < amount"
  with assms show "deductCredits u amount category description now d
      = (Inl (Error ''Insufficient credits''), d)"
    by (rule deductCredits_insufficient)
next
  assume ok: "amount \<le> balance b \<and> category \<in> set transaction_categories \<and> description \<noteq> [] \<and>
          balance b \<le> 2 ^ 53 \<and> \<bar>totalSpent b + amount\<bar> \<le> 2 ^ 53"
  then have "amount \<le> balance b" "category \<in> set transaction_categories" "description \<noteq> []"
    "balance b \<le> 2 ^ 53" "\<bar>totalSpent b + amount\<bar> \<le> 2 ^ 53"
    by simp_all
  from deductCredits_sufficient [OF assms(1,2) this, of now]
  show "\<exists>b' t d'. deductCredits u amount category description now d = (Inr (b', t), d') \<and>
               balance b' = balance b - amount \<and>
               totalSpent b' = totalSpent b + amount \<and>
               totalEarned b' = totalEarned b \<and>
               creditBalances d' = (creditBalances d)(u \<mapsto> b') \<and>
               creditTransactions d' = creditTransactions d @ [t] \<and>
               tx_user t = u \<and> tx_type t = ''spend'' \<and> tx_amount t = - amount \<and>
               tx_balance t = balance b' \<and> tx_category t = category \<and>
               tx_description t = description"
    by simp
qed

theorem deductCredits_floor_witness:
  "deductCredits 1 15 ''feature_usage'' ''Export'' 2000 funded_db
     = (Inl (Error ''Insufficient credits''), funded_db) \<and>
   fst (deductCredits 1 5 ''feature_usage'' ''Export'' 2000 funded_db)
     = Inr (\<lparr>balance = 5, totalEarned = 10, totalSpent = 5,
              lastDailyLoginReward = None, lastUpdated = 2000\<rparr>,
            \<lparr>tx_user = 1, tx_type = ''spend'', tx_amount = - 5, tx_balance = 5,
             tx_description = ''Export'', tx_category = ''feature_usage'',
             tx_createdAt = 2000\<rparr>)"
proof -
  have pos: "(0::int) < 15" "(0::int) < 5" by simp_all
  have small: "(15::int) < 10 ^ 21" "(5::int) < 10 ^ 21" by simp_all
  have cat: "''feature_usage'' \<in> set transaction_categories"
    by (simp add: transaction_categories_def)
  from deductCredits_floor [OF funded_db_balance pos(1) small(1),
      of "''feature_usage''" "''Export''" 2000]
  have a: "deductCredits 1 15 ''feature_usage'' ''Export'' 2000 funded_db
     = (Inl (Error ''Insufficient credits''), funded_db)"
    by simp
  from deductCredits_floor [OF funded_db_balance pos(2) small(2),
      of "''feature_usage''" "''Export''" 2000] cat
  obtain b' t d' where r: "deductCredits 1 5 ''feature_usage'' ''Export'' 2000 funded_db = (Inr (b', t), d')"
    by auto
  have "fst (deductCredits 1 5 ''feature_usage'' ''Export'' 2000 funded_db)
     = Inr (\<lparr>balance = 5, totalEarned = 10, totalSpent = 5,
              lastDailyLoginReward = None, lastUpdated = 2000\<rparr>,
            \<lparr>tx_user = 1, tx_type = ''spend'', tx_amount = - 5, tx_balance = 5,
             tx_description = ''Export'', tx_category = ''feature_usage'',
             tx_createdAt = 2000\<rparr>)"
    using funded_db_balance
    by (simp add: deductCredits_def cb_deductCredits_def save_balance_def save_transaction_def
        validate_transaction_def transaction_types_def transaction_categories_def
        createNotification_def Let_def parseInt_exact js_add_exact js_sub_exact)
  with a show ?thesis by simp
qed

text \<open>
  The claim as stated fails in three places. Where the transaction does not pass the
  schema: with a balance of 10, deducting 5 under a category outside the enum throws,
  although the amount is covered (the balance document has been written by then). Where
  \<^verbatim>\<open>parseInt\<close> reads the exponent form: with a balance of 10, deducting \<open>10^21\<close> takes 1
  credit and succeeds. Where the balance is beyond the exact range: deducting 1 from
  \<open>2^53 + 2\<close> lowers the balance by 2.
\<close>

theorem deductCredits_counterexample:
  "5 \<le> (10::int) \<and>
   fst (deductCredits 1 5 ''bogus'' ''Export'' 2000 funded_db)
     = Inl (ValidationError ''CreditTransaction validation failed'') \<and>
   creditBalances (snd (deductCredits 1 5 ''bogus'' ''Export'' 2000 funded_db)) 1
     = Some \<lparr>balance = 5, totalEarned = 10, totalSpent = 5,
             lastDailyLoginReward = None, lastUpdated = 2000\<rparr> \<and>
   creditTransactions (snd (deductCredits 1 5 ''bogus'' ''Export'' 2000 funded_db))
     = creditTransactions funded_db \<and>
   (10::int) < 1000000000000000000000 \<and>
   fst (deductCredits 1 1000000000000000000000 ''feature_usage'' ''Export'' 2000 funded_db)
     = Inr (\<lparr>balance = 9, totalEarned = 10, totalSpent = 1,
              lastDailyLoginReward = None, lastUpdated = 2000\<rparr>,
            \<lparr>tx_user = 1, tx_type = ''spend'', tx_amount = - 1, tx_balance = 9,
             tx_description = ''Export'', tx_category = ''feature_usage'',
             tx_createdAt = 2000\<rparr>) \<and>
   fst (deductCredits 1 1 ''feature_usage'' ''Export'' 2000 large_db)
     = Inr (\<lparr>balance = 9007199254740992, totalEarned = 9007199254740994, totalSpent = 1,
              lastDailyLoginReward = None, lastUpdated = 2000\<rparr>,
            \<lparr>tx_user = 1, tx_type = ''spend'', tx_amount = - 1, tx_balance = 9007199254740992,
             tx_description = ''Export'', tx_category = ''feature_usage'',
             tx_createdAt = 2000\<rparr>)"
  using funded_db_balance large_db_balance
  by (simp add: deductCredits_def cb_deductCredits_def save_balance_def save_transaction_def
        validate_transaction_def transaction_types_def transaction_categories_def
        createNotification_def Let_def parseInt_def toString_first_digit_1e21
        js_add_def js_sub_def round_double_exact round_double_tie)

subsection \<open>Daily login\<close>

lemma daily_no_balance:
  "creditBalances d u = None \<Longrightarrow> handleDailyLoginReward u now stamp env d = (Inr (), d)"
  by (simp add: handleDailyLoginReward_def)

lemma daily_not_eligible:
  "creditBalances d u = Some b \<Longrightarrow> \<not> eligible b now \<Longrightarrow>
     handleDailyLoginReward u now stamp env d = (Inr (), d)"
  by (simp add: handleDailyLoginReward_def eligible_def)

lemma daily_eligible:
  "creditBalances d u = Some b \<Longrightarrow> eligible b now \<Longrightarrow>
     handleDailyLoginReward u now stamp env d = (Inr (), daily_award u b stamp env d)"
  by (simp add: handleDailyLoginReward_def eligible_def daily_award_def cb_addCredits_def
        save_balance_def save_transaction_def validate_transaction_def transaction_types_def
        transaction_categories_def createNotification_def Let_def)

lemma daily_award_not_eligible_after:
  assumes "now1 \<le> stamp1" "now2 - now1 \<le> 20 * 60 * 60 * 1000"
  shows "handleDailyLoginReward u now2 stamp2 env (daily_award u b stamp1 env d)
           = (Inr (), daily_award u b stamp1 env d)"
proof -
  let ?b1 = "b\<lparr>balance := js_add (balance b) (dailyLoginCredits env),
            totalEarned := js_add (totalEarned b) (dailyLoginCredits env),
            lastUpdated := stamp1,
            lastDailyLoginReward := Some stamp1\<rparr>"
  have look: "creditBalances (daily_award u b stamp1 env d) u = Some ?b1"
    by (simp add: daily_award_def)
  have "\<not> eligible ?b1 now2"
    using assms by (simp add: eligible_def)
  from daily_not_eligible [OF look this] show ?thesis .
qed

lemma registered_db_balance:
  "creditBalances registered_db 1 = Some \<lparr>balance = 0, totalEarned = 0, totalSpent = 0,
      lastDailyLoginReward = None, lastUpdated = 0\<rparr>"
  by (simp add: registered_db_def ledger_defs round_double_exact empty_db_def Let_def)

text \<open>
  Claim C3, as amended. For a user without a balance document the daily-login reward is
  a no-op. For a user with one, it credits the configured amount (10 unless
  \<^verbatim>\<open>DAILY_LOGIN_CREDITS\<close> parses to a non-zero number) under category \<^verbatim>\<open>daily_login\<close>
  exactly when the document has no \<open>lastDailyLoginReward\<close> or more than 20 hours have
  passed since it, and sets \<open>lastDailyLoginReward\<close> to the time of the award; otherwise
  it is a no-op. No path raises an error. Consequently, of two calls within 20 hours of
  each other, the second does nothing when the first one awards, and the two together
  append at most one transaction.
\<close>

theorem daily_login_reward:
  "(creditBalances d u = None \<longrightarrow>
      handleDailyLoginReward u now stamp env d = (Inr (), d)) \<and>
   (\<forall>b. creditBalances d u = Some b \<longrightarrow>
      handleDailyLoginReward u now stamp env d =
        (if lastDailyLoginReward b = None \<or>
            (\<exists>lastReward. lastDailyLoginReward b = Some lastReward \<and>
                now - lastReward > 20 * 60 * 60 * 1000)
         then (Inr (), daily_award u b stamp env d)
         else (Inr (), d))) \<and>
   (\<forall>b. creditBalances d u = Some b \<and> eligible b now \<and> now \<le> stamp \<and>
         now2 - now \<le> 20 * 60 * 60 * 1000 \<longrightarrow>
      handleDailyLoginReward u now2 stamp2 env (snd (handleDailyLoginReward u now stamp env d))
        = (Inr (), snd (handleDailyLoginReward u now stamp env d)) \<and>
      creditTransactions (snd (handleDailyLoginReward u now stamp env d)) =
        creditTransactions d @
          [\<lparr>tx_user = u, tx_type = ''earn'', tx_amount = dailyLoginCredits env,
            tx_balance = js_add (balance b) (dailyLoginCredits env),
            tx_description = ''Daily login reward'', tx_category = ''daily_login'',
            tx_createdAt = stamp\<rparr>]) \<and>
   (now \<le> stamp \<and> now2 - now \<le> 20 * 60 * 60 * 1000 \<longrightarrow>
      length (creditTransactions
         (snd (handleDailyLoginReward u now2 stamp2 env
            (snd (handleDailyLoginReward u now stamp env d)))))
        \<le> length (creditTransactions d) + 1)"
proof (intro conjI allI impI)
  assume "creditBalances d u = None"
  then show "handleDailyLoginReward u now stamp env d = (Inr (), d)"
    by (rule daily_no_balance)
next
  fix b assume b: "creditBalances d u = Some b"
  show "handleDailyLoginReward u now stamp env d =
        (if lastDailyLoginReward b = None \<or>
            (\<exists>lastReward. lastDailyLoginReward b = Some lastReward \<and>
                now - lastReward > 20 * 60 * 60 * 1000)
         then (Inr (), daily_award u b stamp env d)
         else (Inr (), d))"
  proof (cases "eligible b now")
    case True
    then have "lastDailyLoginReward b = None \<or>
            (\<exists>lastReward. lastDailyLoginReward b = Some lastReward \<and>
                now - lastReward > 20 * 60 * 60 * 1000)"
      by (cases "lastDailyLoginReward b") (simp_all add: eligible_def)
    then show ?thesis
      by (simp only: if_P if_True daily_eligible [OF b True])
  next
    case False
    then have "\<not> (lastDailyLoginReward b = None \<or>
            (\<exists>lastReward. lastDailyLoginReward b = Some lastReward \<and>
                now - lastReward > 20 * 60 * 60 * 1000))"
      by (cases "lastDailyLoginReward b") (simp_all add: eligible_def)
    then show ?thesis
      by (simp only: if_not_P if_False daily_not_eligible [OF b False])
  qed
next
  fix b
  assume h: "creditBalances d u = Some b \<and> eligible b now \<and> now \<le> stamp \<and>
         now2 - now \<le> 20 * 60 * 60 * 1000"
  then have first: "handleDailyLoginReward u now stamp env d = (Inr (), daily_award u b stamp env d)"
    by (simp add: daily_eligible)
  from h have "now \<le> stamp" "now2 - now \<le> 20 * 60 * 60 * 1000"
    by simp_all
  from daily_award_not_eligible_after [OF this, of u stamp2 env b d]
  show "handleDailyLoginReward u now2 stamp2 env (snd (handleDailyLoginReward u now stamp env d))
        = (Inr (), snd (handleDailyLoginReward u now stamp env d))"
    by (simp add: first)
  show "creditTransactions (snd (handleDailyLoginReward u now stamp env d)) =
        creditTransactions d @
          [\<lparr>tx_user = u, tx_type = ''earn'', tx_amount = dailyLoginCredits env,
            tx_balance = js_add (balance b) (dailyLoginCredits env),
            tx_description = ''Daily login reward'', tx_category = ''daily_login'',
            tx_createdAt = stamp\<rparr>]"
    by (simp add: first daily_award_def)
next
  assume t: "now \<le> stamp \<and> now2 - now \<le> 20 * 60 * 60 * 1000"
  show "length (creditTransactions
         (snd (handleDailyLoginReward u now2 stamp2 env
            (snd (handleDailyLoginReward u now stamp env d)))))
        \<le> length (creditTransactions d) + 1"
  proof (cases "creditBalances d u")
    case None
    then show ?thesis by (simp add: daily_no_balance)
  next
    case (Some b)
    show ?thesis
    proof (cases "eligible b now")
      case True
      from t have "now \<le> stamp" "now2 - now \<le> 20 * 60 * 60 * 1000"
        by simp_all
      from daily_award_not_eligible_after [OF this, of u stamp2 env b d]
        daily_eligible [OF Some True, of stamp env]
      show ?thesis
        by (simp add: daily_award_def)
    next
      case False
      with Some have first: "handleDailyLoginReward u now stamp env d = (Inr (), d)"
        by (simp add: daily_not_eligible)
      show ?thesis
        using Some
        by (cases "eligible b now2")
           (simp_all add: first daily_eligible daily_not_eligible daily_award_def)
    qed
  qed
qed

theorem daily_login_reward_witness:
  "handleDailyLoginReward 1 1000 1001 None empty_db = (Inr (), empty_db) \<and>
   creditTransactions (snd (handleDailyLoginReward 1 1000 1001 None registered_db)) =
     [\<lparr>tx_user = 1, tx_type = ''earn'', tx_amount = 10, tx_balance = 10,
       tx_description = ''Daily login reward'', tx_category = ''daily_login'',
       tx_createdAt = 1001\<rparr>] \<and>
   handleDailyLoginReward 1 68401000 68401001 None
       (snd (handleDailyLoginReward 1 1000 1001 None registered_db))
     = (Inr (), snd (handleDailyLoginReward 1 1000 1001 None registered_db))"
proof -
  have none: "creditBalances empty_db 1 = None"
    by (simp add: empty_db_def)
  have txs: "creditTransactions registered_db = []"
    by (simp add: registered_db_def ledger_defs round_double_exact empty_db_def Let_def)
  have el: "eligible \<lparr>balance = 0, totalEarned = 0, totalSpent = 0,
      lastDailyLoginReward = None, lastUpdated = 0\<rparr> 1000"
    by (simp add: eligible_def)
  from daily_login_reward [of empty_db 1 1000 1001 None] none
  have a: "handleDailyLoginReward 1 1000 1001 None empty_db = (Inr (), empty_db)"
    by blast
  have hyp: "creditBalances registered_db 1 = Some \<lparr>balance = 0, totalEarned = 0,
        totalSpent = 0, lastDailyLoginReward = None, lastUpdated = 0\<rparr> \<and>
      eligible \<lparr>balance = 0, totalEarned = 0, totalSpent = 0,
        lastDailyLoginReward = None, lastUpdated = 0\<rparr> 1000 \<and>
      (1000::int) \<le> 1001 \<and> (68401000::int) - 1000 \<le> 20 * 60 * 60 * 1000"
    using registered_db_balance el by simp
  note b = daily_login_reward [of registered_db 1 1000 1001 None 68401000 68401001,
      THEN conjunct2, THEN conjunct2, THEN conjunct1, rule_format, OF hyp]
  from a b txs show ?thesis
    by (simp add: dailyLoginCredits_def js_add_exact)
qed

text \<open>
  The claim as stated fails for a user who has no balance document: there is no prior
  \<open>lastDailyLoginReward\<close>, and nothing is credited.
\<close>

theorem daily_login_no_balance_counterexample:
  "users unfunded_db 7 \<noteq> None \<and>
   creditBalances unfunded_db 7 = None \<and>
   handleDailyLoginReward 7 1000 1001 None unfunded_db = (Inr (), unfunded_db)"
  by (simp add: unfunded_db_def empty_db_def handleDailyLoginReward_def)

subsection \<open>Profile completion\<close>

lemma addCredits_valid:
  assumes "0 < a" "a < 10 ^ 21" "c \<in> set transaction_categories" "ds \<noteq> []"
  shows "\<exists>b t d'. addCredits u a c ds now d = (Inr (b, t), d') \<and>
           creditTransactions d' = creditTransactions d @ [t] \<and>
           tx_user t = u \<and> tx_type t = ''earn'' \<and> tx_amount t = a \<and>
           tx_category t = c \<and> tx_description t = ds \<and>
           tx_balance t = js_add (current_balance d u) a \<and>
           current_balance d' u = js_add (current_balance d u) a"
proof -
  from assms(1,2) have "parseInt a = a"
    by (simp add: parseInt_exact)
  with assms show ?thesis
    by (cases "creditBalances d u")
       (simp_all add: addCredits_def cb_addCredits_def create_balance_def save_balance_def
          save_transaction_def validate_transaction_def transaction_types_def
          createNotification_def current_balance_def Let_def)
qed

lemma foldl_js_add_exact:
  "\<forall>c \<in> set cs. 0 \<le> c \<Longrightarrow> \<bar>x\<bar> + sum_list cs \<le> 2 ^ 53 \<Longrightarrow>
     foldl js_add x cs = x + sum_list cs"
proof (induction cs arbitrary: x)
  case Nil
  then show ?case by simp
next
  case (Cons c cs)
  from Cons.prems have c: "0 \<le> c" and rest: "\<forall>c \<in> set cs. 0 \<le> c"
    by simp_all
  from rest have "0 \<le> sum_list cs"
    by (induction cs) simp_all
  with Cons.prems(2) c have "\<bar>x + c\<bar> \<le> 2 ^ 53" and next_ok: "\<bar>x + c\<bar> + sum_list cs \<le> 2 ^ 53"
    by simp_all
  then have "js_add x c = x + c"
    by (simp add: js_add_exact)
  with Cons.IH [OF rest next_ok] show ?case
    by simp
qed

lemma award_milestones_effect:
  assumes "\<forall>m \<in> set ms. 0 < credits m \<and> credits m < 10 ^ 21 \<and> m_description m \<noteq> []"
  shows "\<exists>d' txs. award_milestones ms u old new now d = (Inr (), d') \<and>
           creditTransactions d' = creditTransactions d @ txs \<and>
           map (\<lambda>t. (tx_user t, tx_type t, tx_amount t, tx_category t, tx_description t)) txs =
             map (\<lambda>m. (u, ''earn'', credits m, ''profile_completion'', m_description m))
               (filter (\<lambda>m. old < percentage m \<and> percentage m \<le> new) ms) \<and>
           current_balance d' u = foldl js_add (current_balance d u)
             (map credits (filter (\<lambda>m. old < percentage m \<and> percentage m \<le> new) ms)) \<and>
           (filter (\<lambda>m. old < percentage m \<and> percentage m \<le> new) ms = [] \<longrightarrow> d' = d)"
  using assms
proof (induction ms arbitrary: d)
  case Nil
  then show ?case by simp
next
  case (Cons m ms)
  then have valid: "\<forall>m \<in> set ms. 0 < credits m \<and> credits m < 10 ^ 21 \<and> m_description m \<noteq> []"
    and m: "0 < credits m" "credits m < 10 ^ 21" "m_description m \<noteq> []"
    by simp_all
  show ?case
  proof (cases "old < percentage m \<and> percentage m \<le> new")
    case True
    have cat: "''profile_completion'' \<in> set transaction_categories"
      by (simp add: transaction_categories_def)
    from addCredits_valid [OF m(1,2) cat m(3), of u now d]
    obtain b t d1 where a: "addCredits u (credits m) ''profile_completion'' (m_description m) now d
          = (Inr (b, t), d1)"
      and a1: "creditTransactions d1 = creditTransactions d @ [t]"
      and a2: "tx_user t = u" "tx_type t = ''earn''" "tx_amount t = credits m"
        "tx_category t = ''profile_completion''" "tx_description t = m_description m"
      and a3: "current_balance d1 u = js_add (current_balance d u) (credits m)"
      by blast
    from Cons.IH [OF valid, of d1]
    obtain d' txs where r: "award_milestones ms u old new now d1 = (Inr (), d')"
      and r1: "creditTransactions d' = creditTransactions d1 @ txs"
      and r2: "map (\<lambda>t. (tx_user t, tx_type t, tx_amount t, tx_category t, tx_description t)) txs =
             map (\<lambda>m. (u, ''earn'', credits m, ''profile_completion'', m_description m))
               (filter (\<lambda>m. old < percentage m \<and> percentage m \<le> new) ms)"
      and r3: "current_balance d' u = foldl js_add (current_balance d1 u)
             (map credits (filter (\<lambda>m. old < percentage m \<and> percentage m \<le> new) ms))"
      by blast
    have "award_milestones (m # ms) u old new now d = (Inr (), d')"
      using True a r by simp
    moreover have "creditTransactions d' = creditTransactions d @ (t # txs)"
      using a1 r1 by simp
    moreover have "map (\<lambda>t. (tx_user t, tx_type t, tx_amount t, tx_category t, tx_description t))
          (t # txs) =
        map (\<lambda>m. (u, ''earn'', credits m, ''profile_completion'', m_description m))
          (filter (\<lambda>m. old < percentage m \<and> percentage m \<le> new) (m # ms))"
      using True a2 r2 by simp
    moreover have "current_balance d' u = foldl js_add (current_balance d u)
        (map credits (filter (\<lambda>m. old < percentage m \<and> percentage m \<le> new) (m # ms)))"
      using True a3 r3 by simp
    moreover have "filter (\<lambda>m. old < percentage m \<and> percentage m \<le> new) (m # ms) \<noteq> []"
      using True by simp
    ultimately show ?thesis by blast
  next
    case False
    with Cons.IH [OF valid, of d] show ?thesis
      by auto
  qed
qed

lemma milestones_valid:
  "\<forall>m \<in> set milestones. 0 < credits m \<and> credits m < 10 ^ 21 \<and> m_description m \<noteq> []"
  by (simp add: milestones_def)

lemma milestone_credits_bounds:
  "(\<forall>c \<in> set (map credits (filter P milestones)). 0 \<le> c) \<and>
   sum_list (map credits (filter P milestones)) \<le> 100"
  by (simp add: milestones_def)

lemma processProfileCompletionRewards_effect:
  "\<exists>d' txs. processProfileCompletionRewards u old new now d = (Inr (), d') \<and>
      creditTransactions d' = creditTransactions d @ txs \<and>
      map (\<lambda>t. (tx_user t, tx_type t, tx_amount t, tx_category t, tx_description t)) txs =
        map (\<lambda>m. (u, ''earn'', credits m, ''profile_completion'', m_description m))
          (filter (\<lambda>m. old < percentage m \<and> percentage m \<le> new) milestones) \<and>
      current_balance d' u = foldl js_add (current_balance d u)
        (map credits (filter (\<lambda>m. old < percentage m \<and> percentage m \<le> new) milestones)) \<and>
      (\<bar>current_balance d u\<bar> + 100 \<le> 2 ^ 53 \<longrightarrow>
         current_balance d' u = current_balance d u +
           sum_list (map credits
             (filter (\<lambda>m. old < percentage m \<and> percentage m \<le> new) milestones))) \<and>
      (filter (\<lambda>m. old < percentage m \<and> percentage m \<le> new) milestones = [] \<longrightarrow> d' = d)"
proof -
  let ?cs = "map credits (filter (\<lambda>m. old < percentage m \<and> percentage m \<le> new) milestones)"
  from award_milestones_effect [OF milestones_valid, of u old new now d]
  obtain d' txs where r: "award_milestones milestones u old new now d = (Inr (), d')"
    and rest: "creditTransactions d' = creditTransactions d @ txs"
      "map (\<lambda>t. (tx_user t, tx_type t, tx_amount t, tx_category t, tx_description t)) txs =
        map (\<lambda>m. (u, ''earn'', credits m, ''profile_completion'', m_description m))
          (filter (\<lambda>m. old < percentage m \<and> percentage m \<le> new) milestones)"
      "current_balance d' u = foldl js_add (current_balance d u) ?cs"
      "filter (\<lambda>m. old < percentage m \<and> percentage m \<le> new) milestones = [] \<longrightarrow> d' = d"
    by blast
  from r have run: "processProfileCompletionRewards u old new now d = (Inr (), d')"
    by (simp add: processProfileCompletionRewards_def)
  have exact: "\<bar>current_balance d u\<bar> + 100 \<le> 2 ^ 53 \<longrightarrow>
      current_balance d' u = current_balance d u + sum_list ?cs"
  proof
    assume "\<bar>current_balance d u\<bar> + 100 \<le> 2 ^ 53"
    with milestone_credits_bounds [of "\<lambda>m. old < percentage m \<and> percentage m \<le> new"]
    have "\<forall>c \<in> set ?cs. 0 \<le> c" "\<bar>current_balance d u\<bar> + sum_list ?cs \<le> 2 ^ 53"
      by simp_all
    from foldl_js_add_exact [OF this] rest(3)
    show "current_balance d' u = current_balance d u + sum_list ?cs"
      by simp
  qed
  from run rest exact show ?thesis by blast
qed

text \<open>
  Claim C4. For every user and every pair of percentages, the profile-completion reward
  appends one \<^verbatim>\<open>earn\<close> transaction of category \<^verbatim>\<open>profile_completion\<close> for each milestone
  of the table whose threshold \<open>t\<close> satisfies \<open>old < t \<le> new\<close>, in table order and with
  the milestone's credits, and for no other. The balance rises by these credits, one
  addition of doubles after the other, which up to \<open>2^53\<close> is their sum. The call with
  (20, 60) awards the 25% and 50% milestones, 25 credits in all; the call with (60, 60)
  changes nothing.
\<close>

theorem profile_completion_rewards:
  "(\<exists>d' txs. processProfileCompletionRewards u old new now d = (Inr (), d') \<and>
      creditTransactions d' = creditTransactions d @ txs \<and>
      map (\<lambda>t. (tx_user t, tx_type t, tx_amount t, tx_category t, tx_description t)) txs =
        map (\<lambda>m. (u, ''earn'', credits m, ''profile_completion'', m_description m))
          (filter (\<lambda>m. old < percentage m \<and> percentage m \<le> new) milestones) \<and>
      current_balance d' u = foldl js_add (current_balance d u)
        (map credits (filter (\<lambda>m. old < percentage m \<and> percentage m \<le> new) milestones)) \<and>
      (\<bar>current_balance d u\<bar> + 100 \<le> 2 ^ 53 \<longrightarrow>
         current_balance d' u = current_balance d u +
           sum_list (map credits
             (filter (\<lambda>m. old < percentage m \<and> percentage m \<le> new) milestones)))) \<and>
   (\<exists>d' t1 t2. processProfileCompletionRewards u 20 60 now d = (Inr (), d') \<and>
      creditTransactions d' = creditTransactions d @ [t1, t2] \<and>
      tx_amount t1 = 10 \<and> tx_description t1 = ''Profile 25% complete'' \<and>
      tx_amount t2 = 15 \<and> tx_description t2 = ''Profile 50% complete'' \<and>
      tx_amount t1 + tx_amount t2 = 25 \<and>
      current_balance d' u = js_add (js_add (current_balance d u) 10) 15 \<and>
      (\<bar>current_balance d u\<bar> + 100 \<le> 2 ^ 53 \<longrightarrow>
         current_balance d' u = current_balance d u + 25)) \<and>
   processProfileCompletionRewards u 60 60 now d = (Inr (), d)"
proof (intro conjI)
  from processProfileCompletionRewards_effect [of u old new now d]
  show "\<exists>d' txs. processProfileCompletionRewards u old new now d = (Inr (), d') \<and>
      creditTransactions d' = creditTransactions d @ txs \<and>
      map (\<lambda>t. (tx_user t, tx_type t, tx_amount t, tx_category t, tx_description t)) txs =
        map (\<lambda>m. (u, ''earn'', credits m, ''profile_completion'', m_description m))
          (filter (\<lambda>m. old < percentage m \<and> percentage m \<le> new) milestones) \<and>
      current_balance d' u = foldl js_add (current_balance d u)
        (map credits (filter (\<lambda>m. old < percentage m \<and> percentage m \<le> new) milestones)) \<and>
      (\<bar>current_balance d u\<bar> + 100 \<le> 2 ^ 53 \<longrightarrow>
         current_balance d' u = current_balance d u +
           sum_list (map credits
             (filter (\<lambda>m. old < percentage m \<and> percentage m \<le> new) milestones)))"
    by blast
next
  from processProfileCompletionRewards_effect [of u 20 60 now d]
  obtain d' txs where r: "processProfileCompletionRewards u 20 60 now d = (Inr (), d')"
    and t: "creditTransactions d' = creditTransactions d @ txs"
    and m: "map (\<lambda>t. (tx_user t, tx_type t, tx_amount t, tx_category t, tx_description t)) txs =
        map (\<lambda>m. (u, ''earn'', credits m, ''profile_completion'', m_description m))
          (filter (\<lambda>m. 20 < percentage m \<and> percentage m \<le> 60) milestones)"
    and b: "current_balance d' u = foldl js_add (current_balance d u)
        (map credits (filter (\<lambda>m. 20 < percentage m \<and> percentage m \<le> 60) milestones))"
    and e: "\<bar>current_balance d u\<bar> + 100 \<le> 2 ^ 53 \<longrightarrow>
         current_balance d' u = current_balance d u +
           sum_list (map credits (filter (\<lambda>m. 20 < percentage m \<and> percentage m \<le> 60) milestones))"
    by blast
  from m obtain t1 t2 where txs: "txs = [t1, t2]"
    and f: "tx_amount t1 = 10" "tx_description t1 = ''Profile 25% complete''"
      "tx_amount t2 = 15" "tx_description t2 = ''Profile 50% complete''"
    by (auto simp: milestones_def)
  from f have total: "tx_amount t1 + tx_amount t2 = 25"
    by simp
  from b have b': "current_balance d' u = js_add (js_add (current_balance d u) 10) 15"
    by (simp add: milestones_def)
  from e have e': "\<bar>current_balance d u\<bar> + 100 \<le> 2 ^ 53 \<longrightarrow>
         current_balance d' u = current_balance d u + 25"
    by (simp add: milestones_def)
  from r t txs f total b' e'
  show "\<exists>d' t1 t2. processProfileCompletionRewards u 20 60 now d = (Inr (), d') \<and>
      creditTransactions d' = creditTransactions d @ [t1, t2] \<and>
      tx_amount t1 = 10 \<and> tx_description t1 = ''Profile 25% complete'' \<and>
      tx_amount t2 = 15 \<and> tx_description t2 = ''Profile 50% complete'' \<and>
      tx_amount t1 + tx_amount t2 = 25 \<and>
      current_balance d' u = js_add (js_add (current_balance d u) 10) 15 \<and>
      (\<bar>current_balance d u\<bar> + 100 \<le> 2 ^ 53 \<longrightarrow>
         current_balance d' u = current_balance d u + 25)"
    by blast
next
  from processProfileCompletionRewards_effect [of u 60 60 now d]
  show "processProfileCompletionRewards u 60 60 now d = (Inr (), d)"
    by (auto simp: milestones_def)
qed

theorem profile_completion_rewards_witness:
  "map tx_amount (creditTransactions (snd (processProfileCompletionRewards 1 20 60 1000 empty_db)))
     = [10, 15] \<and>
   current_balance (snd (processProfileCompletionRewards 1 20 60 1000 empty_db)) 1 = 25 \<and>
   processProfileCompletionRewards 1 60 60 2000
       (snd (processProfileCompletionRewards 1 20 60 1000 empty_db))
     = (Inr (), snd (processProfileCompletionRewards 1 20 60 1000 empty_db))"
proof -
  have small: "\<bar>current_balance empty_db 1\<bar> + 100 \<le> 2 ^ 53"
    by (simp add: empty_db_def current_balance_def)
  from profile_completion_rewards [of 1 20 60 1000 empty_db] small
  obtain d' t1 t2 where "processProfileCompletionRewards 1 20 60 1000 empty_db = (Inr (), d')"
      "creditTransactions d' = creditTransactions empty_db @ [t1, t2]"
      "tx_amount t1 = 10" "tx_amount t2 = 15"
      "current_balance d' 1 = current_balance empty_db 1 + 25"
    by blast
  moreover from profile_completion_rewards
    [of 1 20 60 2000 "snd (processProfileCompletionRewards 1 20 60 1000 empty_db)"]
  have "processProfileCompletionRewards 1 60 60 2000
       (snd (processProfileCompletionRewards 1 20 60 1000 empty_db))
     = (Inr (), snd (processProfileCompletionRewards 1 20 60 1000 empty_db))"
    by blast
  ultimately show ?thesis
    by (simp add: empty_db_def current_balance_def)
qed

section \<open>The content pipeline\<close>

subsection \<open>Ingesting the same post twice\<close>

lemma after_first_fetch_tables:
  "map c_id (contents after_first_fetch) = [1] \<and> savedContents after_first_fetch = [] \<and>
   creditTransactions after_first_fetch = [] \<and> reports after_first_fetch = []"
  by (simp add: after_first_fetch_def first_fetch_def content_defs round_double_exact
        empty_db_def Let_def)

text \<open>
  Claim C5 at an input where the code departs from it. The post \<^verbatim>\<open>abc123\<close> is ingested
  with 5 upvotes and 3 comments, then again with 7 upvotes and 0 comments. One row
  remains and its cache expiration is 24 hours after the second call, but
  \<^verbatim>\<open>comments || this.engagement.comments\<close> takes the fetched \<open>0\<close> for missing: the row
  keeps 3 comments and a total of 10, where the second fetch has 0 and 7.
\<close>

theorem reingest_zero_comments_kept:
  "map (\<lambda>c. (sourceId c, title c, likes (engagement c), comments (engagement c),
              shares (engagement c), totalEngagement (engagement c), cacheExpiration c))
       (contents after_first_fetch)
     = [(''abc123'', Some ''Release notes'', 5, 3, 0, 8, 1000 + 24 * 60 * 60 * 1000)] \<and>
   map (\<lambda>p. (sourceId p, title p, likes (engagement p), comments (engagement p),
              shares (engagement p), totalEngagement (engagement p)))
       (normalizePosts [second_fetch] (Some ''technology'') 5000)
     = [(''abc123'', Some ''Release notes, second edition'', 7, 0, 0, 7)] \<and>
   map (\<lambda>c. (sourceId c, title c, likes (engagement c), comments (engagement c),
              shares (engagement c), totalEngagement (engagement c), cacheExpiration c))
       (contents after_second_fetch)
     = [(''abc123'', Some ''Release notes'', 7, 3, 0, 10, 5000 + 24 * 60 * 60 * 1000)]"
  by (simp add: after_second_fetch_def after_first_fetch_def first_fetch_def second_fetch_def
        content_defs round_double_exact empty_db_def Let_def)

subsection \<open>Content types of the Reddit normalizer\<close>

text \<open>
  Claim C6 at an input where the code departs from it. For a self post the Reddit
  normalizer emits the content type \<^verbatim>\<open>text\<close>, which is not in the enum of the schema;
  the validator rejects the object, the save loop skips it, and nothing is stored.
\<close>

theorem reddit_self_post_type_rejected:
  "map contentType (normalizePosts [self_post] (Some ''technology'') 1000) = [''text''] \<and>
   ''text'' \<notin> set content_types \<and>
   savePostsToDatabase (normalizePosts [self_post] (Some ''technology'') 1000) 1000 empty_db
     = ([], empty_db)"
  by (simp add: self_post_def first_fetch_def content_defs round_double_exact empty_db_def
        Let_def)

text \<open>The same holds for every self, video, image and link post; the Twitter normalizer
  stays inside the enum.\<close>

lemma reddit_contentType_outside_enum:
  "rp_is_self post \<or> rp_is_video post \<or> rp_post_hint post = Some ''image'' \<or>
     rp_post_hint post = Some ''link'' \<Longrightarrow>
   contentType (normalize_post post subredditName now) \<notin> set content_types"
  by (auto simp: normalize_post_def reddit_contentType_def content_types_def Let_def)

lemma tweet_contentType_in_enum:
  "contentType (normalize_tweet tw author now) \<in> set content_types"
  by (simp add: normalize_tweet_def content_types_def Let_def)

subsection \<open>Batches with failing targets\<close>

lemma fetchSubredditPosts_loop_concat:
  "fetchSubredditPosts_loop client subs limit time sortKind postFilter now allPosts =
     allPosts @ concat (map (subreddit_posts client limit time sortKind postFilter now) subs)"
  by (induction subs arbitrary: allPosts) (simp_all add: subreddit_posts_def split: sum.splits)





lemma fetchSubredditPosts_eq:
  "fetchSubredditPosts client subs limit time sortKind postFilter now =
     Inr (concat (map (subreddit_posts client limit time sortKind postFilter now) subs))"
  by (simp add: fetchSubredditPosts_def fetchSubredditPosts_loop_concat)





lemma subreddits_branch:
  "(if subs \<noteq> [] then fetchSubredditPosts client subs limit time sortKind postFilter now
    else Inr [])
     = Inr (concat (map (subreddit_posts client limit time sortKind postFilter now) subs))"
  by (simp add: fetchSubredditPosts_eq)

lemma hashtags_branch:
  "\<exists>hashtagTweets.
     (if hashtags \<noteq> [] then fetchTweetsFromHashtags client hashtags n now else Inr [])
       = Inr hashtagTweets"
  by (simp add: fetchTweetsFromHashtags_def)


lemma fetchAndSavePosts_eq:
  "fetchAndSavePosts client subs opts now d =
     (let subredditPosts = concat (map (subreddit_posts client (int_or (postsPerSubreddit opts) 25)
              (string_or (ro_time opts) ''day'') (string_or (ro_sort opts) ''hot'') None now) subs)
      in case (if includeTrending opts
               then fetchTrendingPosts client (int_or (trendingLimit opts) 50)
                      (case excludedSubreddits opts of None \<Rightarrow> [] | Some xs \<Rightarrow> xs) now
               else Inr []) of
           Inl e \<Rightarrow> (Inl e, d)
         | Inr trendingPosts \<Rightarrow>
             (Inr \<lparr>fetched = length (subredditPosts @ trendingPosts),
                   saved = length (fst (savePostsToDatabase (subredditPosts @ trendingPosts) now d))\<rparr>,
              snd (savePostsToDatabase (subredditPosts @ trendingPosts) now d)))"
  unfolding fetchAndSavePosts_def subreddits_branch
  by (simp add: Let_def split: prod.splits sum.splits)




















lemma fetchAndSavePosts_failure:
  assumes "includeTrending opts"
    "client ''all'' GetHot (int_or (trendingLimit opts) 50) None = Inl e"
  shows "fetchAndSavePosts client subs opts now d = (Inl e, d)"
  using assms by (simp add: fetchAndSavePosts_eq fetchTrendingPosts_def Let_def)















section \<open>The feed service\<close>

subsection \<open>Reports\<close>

lemma reportContent_duplicate:
  assumes "findById_content C d \<noteq> None"
    "(U, C) \<in> set (report_pairs d)"
  shows "reportContent U C rd d = (Inl (Error ''You have already reported this content''), d)"
proof -
  from assms(2) have "find (\<lambda>r. r_reporter r = U \<and> r_content r = C) (reports d) \<noteq> None"
    by (auto simp: report_pairs_def find_None_iff)
  with assms(1) show ?thesis
    by (auto simp: reportContent_def split: option.splits)
qed

lemma reportContent_success:
  assumes "reportContent U C rd d = (Inr res, d1)"
  shows "findById_content C d \<noteq> None \<and> (U, C) \<notin> set (report_pairs d) \<and>
         validate_report (snd res) \<and> r_reporter (snd res) = U \<and> r_content (snd res) = C \<and>
         r_reason (snd res) = rd_reason rd \<and> r_status (snd res) = ''pending'' \<and>
         d1 = d\<lparr>reports := reports d @ [snd res]\<rparr>"
  using assms
  by (auto simp: reportContent_def report_pairs_def find_None_iff Let_def validate_report_def
           split: option.splits if_splits)

lemma reportContent_fresh:
  assumes "findById_content C d \<noteq> None" "(V, C) \<notin> set (report_pairs d)"
    "rd_reason rd = Some reason" "reason \<in> set report_reasons"
  shows "\<exists>res d2. reportContent V C rd d = (Inr res, d2) \<and>
           reports d2 = reports d @ [snd res] \<and>
           r_reporter (snd res) = V \<and> r_content (snd res) = C"
proof -
  from assms(2) have "find (\<lambda>r. r_reporter r = V \<and> r_content r = C) (reports d) = None"
    by (auto simp: report_pairs_def find_None_iff)
  with assms(1,3,4) show ?thesis
    by (auto simp: reportContent_def validate_report_def Let_def split: option.splits)
qed

lemma reportContent_distinct:
  assumes "distinct (report_pairs d)"
  shows "distinct (report_pairs (snd (reportContent u c rd d)))"
proof (cases "reportContent u c rd d")
  case (Pair r d1)
  show ?thesis
  proof (cases r)
    case (Inl e)
    with Pair have "d1 = d"
      by (auto simp: reportContent_def Let_def split: option.splits if_splits)
    with Pair assms show ?thesis by simp
  next
    case (Inr res)
    with Pair reportContent_success [of u c rd d res d1]
    have "(u, c) \<notin> set (report_pairs d)" "r_reporter (snd res) = u" "r_content (snd res) = c"
      "d1 = d\<lparr>reports := reports d @ [snd res]\<rparr>"
      by simp_all
    with Pair assms show ?thesis
      by (simp add: report_pairs_def)
  qed
qed

lemma run_reports_distinct:
  "distinct (report_pairs d) \<Longrightarrow> distinct (report_pairs (run_reports calls d))"
proof (induction calls arbitrary: d)
  case Nil
  then show ?case by simp
next
  case (Cons call calls)
  obtain u c rd where call: "call = (u, c, rd)"
    by (cases call) auto
  from Cons.prems have "distinct (report_pairs (snd (reportContent u c rd d)))"
    by (rule reportContent_distinct)
  from Cons.IH [OF this] call show ?case by simp
qed

lemma reportContent_contents: "contents (snd (reportContent u c rd d)) = contents d"
  by (auto simp: reportContent_def Let_def split: option.splits)

text \<open>
  Claim C7. After \<open>reportContent U C\<close> has succeeded, a second \<open>reportContent U C\<close>, with
  whatever report data, fails with the duplicate-report error and leaves the database
  as it is, so no second row is created; \<open>reportContent V C\<close> with the same report data
  succeeds for every other reporter \<open>V\<close> who has not reported \<open>C\<close>, and adds exactly the
  row of \<open>V\<close>. No run of report attempts ever stores two reports with the same
  (reporter, content) pair, neither from the empty database nor from any database
  without such duplicates.
\<close>

theorem report_uniqueness:
  assumes "reportContent U C rd d = (Inr res, d1)"
  shows "reportContent U C rd' d1 = (Inl (Error ''You have already reported this content''), d1) \<and>
         (V \<noteq> U \<and> (V, C) \<notin> set (report_pairs d) \<longrightarrow>
            (\<exists>res2 d2. reportContent V C rd d1 = (Inr res2, d2) \<and>
               reports d2 = reports d1 @ [snd res2] \<and>
               r_reporter (snd res2) = V \<and> r_content (snd res2) = C)) \<and>
         distinct (report_pairs (run_reports calls empty_db)) \<and>
         (distinct (report_pairs d) \<longrightarrow> distinct (report_pairs (run_reports calls d1)))"
proof -
  note s = reportContent_success [OF assms]
  from s have d1: "d1 = d\<lparr>reports := reports d @ [snd res]\<rparr>"
    and ex: "findById_content C d \<noteq> None"
    and fields: "r_reporter (snd res) = U" "r_content (snd res) = C"
    and fresh: "(U, C) \<notin> set (report_pairs d)"
    by simp_all
  from ex d1 have ex1: "findById_content C d1 \<noteq> None"
    by (simp add: findById_content_def)
  from d1 fields have "(U, C) \<in> set (report_pairs d1)"
    by (simp add: report_pairs_def)
  with ex1 have a: "reportContent U C rd' d1
      = (Inl (Error ''You have already reported this content''), d1)"
    by (rule reportContent_duplicate)
  have b: "V \<noteq> U \<and> (V, C) \<notin> set (report_pairs d) \<longrightarrow>
            (\<exists>res2 d2. reportContent V C rd d1 = (Inr res2, d2) \<and>
               reports d2 = reports d1 @ [snd res2] \<and>
               r_reporter (snd res2) = V \<and> r_content (snd res2) = C)"
  proof
    assume v: "V \<noteq> U \<and> (V, C) \<notin> set (report_pairs d)"
    with d1 fields have nv: "(V, C) \<notin> set (report_pairs d1)"
      by (simp add: report_pairs_def)
    from s obtain reason where "rd_reason rd = Some reason" "reason \<in> set report_reasons"
      by (auto simp: validate_report_def split: option.splits)
    from reportContent_fresh [OF ex1 nv this]
    show "\<exists>res2 d2. reportContent V C rd d1 = (Inr res2, d2) \<and>
               reports d2 = reports d1 @ [snd res2] \<and>
               r_reporter (snd res2) = V \<and> r_content (snd res2) = C" .
  qed
  have c: "distinct (report_pairs (run_reports calls empty_db))"
    by (rule run_reports_distinct) (simp add: report_pairs_def empty_db_def)
  have e: "distinct (report_pairs d) \<longrightarrow> distinct (report_pairs (run_reports calls d1))"
  proof
    assume "distinct (report_pairs d)"
    then have "distinct (report_pairs (snd (reportContent U C rd d)))"
      by (rule reportContent_distinct)
    with assms have "distinct (report_pairs d1)" by simp
    then show "distinct (report_pairs (run_reports calls d1))"
      by (rule run_reports_distinct)
  qed
  from a b c e show ?thesis by blast
qed

theorem report_uniqueness_witness:
  "reportContent 2 1 spam_report (snd (reportContent 2 1 spam_report after_first_fetch))
     = (Inl (Error ''You have already reported this content''),
        snd (reportContent 2 1 spam_report after_first_fetch)) \<and>
   map (\<lambda>r. (r_reporter r, r_content r))
     (reports (snd (reportContent 3 1 spam_report
                 (snd (reportContent 2 1 spam_report after_first_fetch)))))
     = [(2, 1), (3, 1)]"
proof -
  let ?rep = "\<lparr>r_reporter = 2, r_content = 1, r_reason = Some ''spam'', r_description = None,
               r_status = ''pending'', r_actionTaken = ''none''\<rparr>"
  from after_first_fetch_tables obtain c where c: "contents after_first_fetch = [c]" "c_id c = 1"
    by (cases "contents after_first_fetch") auto
  then have first: "reportContent 2 1 spam_report after_first_fetch
      = (Inr (''Content reported successfully'', ?rep),
         after_first_fetch\<lparr>reports := reports after_first_fetch @ [?rep]\<rparr>)"
    using after_first_fetch_tables
    by (simp add: reportContent_def findById_content_def spam_report_def validate_report_def
          report_reasons_def Let_def)
  have fresh: "3 \<noteq> (2::nat) \<and> (3, 1) \<notin> set (report_pairs after_first_fetch)"
    using after_first_fetch_tables by (simp add: report_pairs_def)
  from report_uniqueness [OF first, of spam_report 3 "[]"] fresh
  obtain res2 d2 where dup: "reportContent 2 1 spam_report
        (after_first_fetch\<lparr>reports := reports after_first_fetch @ [?rep]\<rparr>)
      = (Inl (Error ''You have already reported this content''),
         after_first_fetch\<lparr>reports := reports after_first_fetch @ [?rep]\<rparr>)"
    and other: "reportContent 3 1 spam_report
        (after_first_fetch\<lparr>reports := reports after_first_fetch @ [?rep]\<rparr>) = (Inr res2, d2)"
      "reports d2 = reports (after_first_fetch\<lparr>reports := reports after_first_fetch @ [?rep]\<rparr>)
         @ [snd res2]"
      "r_reporter (snd res2) = 3" "r_content (snd res2) = 1"
    by blast
  with first after_first_fetch_tables show ?thesis
    by simp
qed

subsection \<open>Saving content\<close>

lemma addCredits_frame:
  "savedContents (snd (addCredits u a c ds now d)) = savedContents d \<and>
   contents (snd (addCredits u a c ds now d)) = contents d \<and>
   reports (snd (addCredits u a c ds now d)) = reports d"
  by (cases "creditBalances d u")
     (simp_all add: addCredits_def cb_addCredits_def create_balance_def save_balance_def
        save_transaction_def createNotification_def Let_def split: prod.splits sum.splits)

lemma find_index_of_None: "find_index_of P xs = None \<longleftrightarrow> (\<forall>x \<in> set xs. \<not> P x)"
  by (induction xs) auto

lemma find_index_of_Some:
  "find_index_of P xs = Some i \<Longrightarrow> i < length xs \<and> P (xs ! i)"
  by (induction xs arbitrary: i) (auto split: if_splits)

lemma saveContent_existing:
  assumes "findById_content C d \<noteq> None"
    "find_index_of (\<lambda>sc. sc_user sc = U \<and> sc_content sc = C) (savedContents d) = Some i"
  shows "saveContent U C opts now d =
     (Inr (''Content updated in saved items'',
           (savedContents d ! i)
             \<lparr>sc_folder := (case so_folder opts of None \<Rightarrow> ''General'' | Some f \<Rightarrow> f),
              sc_tags := (case so_tags opts of None \<Rightarrow> [] | Some ts \<Rightarrow> ts),
              sc_notes := (case so_notes opts of None \<Rightarrow> [] | Some n \<Rightarrow> n)\<rparr>),
      d\<lparr>savedContents := (savedContents d)
           [i := (savedContents d ! i)
             \<lparr>sc_folder := (case so_folder opts of None \<Rightarrow> ''General'' | Some f \<Rightarrow> f),
              sc_tags := (case so_tags opts of None \<Rightarrow> [] | Some ts \<Rightarrow> ts),
              sc_notes := (case so_notes opts of None \<Rightarrow> [] | Some n \<Rightarrow> n)\<rparr>]\<rparr>)"
  using assms
  by (auto simp: saveContent_def Let_def split: option.splits)

lemma saveContent_new:
  assumes "findById_content C d \<noteq> None"
    "find_index_of (\<lambda>sc. sc_user sc = U \<and> sc_content sc = C) (savedContents d) = None"
  shows "\<exists>row t d'. saveContent U C opts now d = (Inr (''Content saved successfully'', row), d') \<and>
           savedContents d' = savedContents d @ [row] \<and>
           sc_user row = U \<and> sc_content row = C \<and>
           creditTransactions d' = creditTransactions d @ [t] \<and>
           tx_user t = U \<and> tx_type t = ''earn'' \<and> tx_amount t = 2 \<and>
           tx_category t = ''content_interaction'' \<and>
           current_balance d' U = js_add (current_balance d U) 2 \<and>
           contents d' = contents d"
proof -
  let ?row = "\<lparr>sc_user = U, sc_content = C,
        sc_folder = (case so_folder opts of None \<Rightarrow> ''General'' | Some f \<Rightarrow> f),
        sc_tags = (case so_tags opts of None \<Rightarrow> [] | Some ts \<Rightarrow> ts),
        sc_notes = (case so_notes opts of None \<Rightarrow> [] | Some n \<Rightarrow> n), sc_savedAt = now\<rparr>"
  let ?d1 = "d\<lparr>savedContents := savedContents d @ [?row]\<rparr>"
  have cat: "''content_interaction'' \<in> set transaction_categories"
    by (simp add: transaction_categories_def)
  have pos: "(0::int) < 2" "(2::int) < 10 ^ 21" by simp_all
  have ne: "''Credits for '' @ ''save'' @ '' interaction'' \<noteq> []" by simp
  from addCredits_valid [OF pos cat ne, of U now ?d1]
  obtain b t d' where a: "addCredits U 2 ''content_interaction''
        (''Credits for '' @ ''save'' @ '' interaction'') now ?d1 = (Inr (b, t), d')"
    and t: "creditTransactions d' = creditTransactions ?d1 @ [t]"
      "tx_user t = U" "tx_type t = ''earn''" "tx_amount t = 2"
      "tx_category t = ''content_interaction''"
      "current_balance d' U = js_add (current_balance ?d1 U) 2"
    by blast
  from addCredits_frame [of U 2 "''content_interaction''"
      "''Credits for '' @ ''save'' @ '' interaction''" now ?d1] a
  have sv: "savedContents d' = savedContents d @ [?row]" and ct: "contents d' = contents d"
    by simp_all
  have aw: "awardContentInteractionCredits U C ''save'' now ?d1 = (Inr (b, t), d')"
    using a by (simp add: awardContentInteractionCredits_def object_prototype_keys_def
        interaction_rewards_def)
  from assms aw have "saveContent U C opts now d = (Inr (''Content saved successfully'', ?row), d')"
    by (auto simp: saveContent_def Let_def split: option.splits)
  with sv ct t show ?thesis
    by (auto simp: current_balance_def)
qed

lemma saveContent_contents: "contents (snd (saveContent U C opts now d)) = contents d"
proof (cases "findById_content C d")
  case None
  then show ?thesis by (simp add: saveContent_def Let_def)
next
  case (Some c)
  then have ex: "findById_content C d \<noteq> None" by simp
  show ?thesis
  proof (cases "find_index_of (\<lambda>sc. sc_user sc = U \<and> sc_content sc = C) (savedContents d)")
    case None
    from saveContent_new [OF ex None, of opts now] show ?thesis
      by auto
  next
    case (Some i)
    from saveContent_existing [OF ex Some, of opts now] show ?thesis by simp
  qed
qed

lemma find_index_of_last:
  "\<forall>x \<in> set xs. \<not> P x \<Longrightarrow> P y \<Longrightarrow> find_index_of P (xs @ [y]) = Some (length xs)"
  by (induction xs) simp_all

lemma unsaveContent_last:
  assumes "\<forall>sc \<in> set (savedContents d). \<not> (sc_user sc = U \<and> sc_content sc = C)"
    "savedContents d1 = savedContents d @ [row]" "sc_user row = U" "sc_content row = C"
  shows "unsaveContent U C d1 =
           (Inr ''Content removed from saved items'', d1\<lparr>savedContents := savedContents d\<rparr>)"
proof -
  from assms have "find_index_of (\<lambda>sc. sc_user sc = U \<and> sc_content sc = C) (savedContents d1)
      = Some (length (savedContents d))"
    by (simp add: find_index_of_last)
  with assms(2) show ?thesis
    by (simp add: unsaveContent_def)
qed

text \<open>
  Claim C10, as amended. For a content item that exists: when a row of the pair is
  stored, \<open>saveContent\<close> overwrites folder, tags and notes of that row in place, creates
  no second row, and leaves balances, transactions and notifications untouched. When no
  row of the pair is stored, it appends the row and awards 2 credits under
  \<^verbatim>\<open>content_interaction\<close> with exactly one transaction; a following \<open>saveContent\<close> of the
  same pair changes neither transactions nor balances nor the number of rows; and
  \<open>unsaveContent\<close> takes the row away again, after which the next \<open>saveContent\<close> of the
  pair awards another 2 credits. So the award is made on every save that finds no row of
  the pair, the first one and the first one after each removal.
\<close>

theorem resave_leaves_ledger:
  assumes "findById_content C d \<noteq> None"
  shows
    "((\<exists>sc \<in> set (savedContents d). sc_user sc = U \<and> sc_content sc = C) \<longrightarrow>
        (\<exists>i. i < length (savedContents d) \<and>
           sc_user (savedContents d ! i) = U \<and> sc_content (savedContents d ! i) = C \<and>
           saveContent U C opts now d =
             (Inr (''Content updated in saved items'',
                   (savedContents d ! i)
                     \<lparr>sc_folder := (case so_folder opts of None \<Rightarrow> ''General'' | Some f \<Rightarrow> f),
                      sc_tags := (case so_tags opts of None \<Rightarrow> [] | Some ts \<Rightarrow> ts),
                      sc_notes := (case so_notes opts of None \<Rightarrow> [] | Some n \<Rightarrow> n)\<rparr>),
              d\<lparr>savedContents := (savedContents d)
                   [i := (savedContents d ! i)
                     \<lparr>sc_folder := (case so_folder opts of None \<Rightarrow> ''General'' | Some f \<Rightarrow> f),
                      sc_tags := (case so_tags opts of None \<Rightarrow> [] | Some ts \<Rightarrow> ts),
                      sc_notes := (case so_notes opts of None \<Rightarrow> [] | Some n \<Rightarrow> n)\<rparr>]\<rparr>)) \<and>
        length (savedContents (snd (saveContent U C opts now d))) = length (savedContents d) \<and>
        creditBalances (snd (saveContent U C opts now d)) = creditBalances d \<and>
        creditTransactions (snd (saveContent U C opts now d)) = creditTransactions d \<and>
        notifications (snd (saveContent U C opts now d)) = notifications d) \<and>
     ((\<forall>sc \<in> set (savedContents d). \<not> (sc_user sc = U \<and> sc_content sc = C)) \<longrightarrow>
        (\<exists>row t d1. saveContent U C opts now d = (Inr (''Content saved successfully'', row), d1) \<and>
           savedContents d1 = savedContents d @ [row] \<and>
           sc_user row = U \<and> sc_content row = C \<and>
           creditTransactions d1 = creditTransactions d @ [t] \<and>
           tx_user t = U \<and> tx_type t = ''earn'' \<and> tx_amount t = 2 \<and>
           tx_category t = ''content_interaction'' \<and>
           current_balance d1 U = js_add (current_balance d U) 2 \<and>
           creditTransactions (snd (saveContent U C opts2 now2 d1)) = creditTransactions d1 \<and>
           creditBalances (snd (saveContent U C opts2 now2 d1)) = creditBalances d1 \<and>
           length (savedContents (snd (saveContent U C opts2 now2 d1))) = length (savedContents d1) \<and>
           (\<exists>row3 t3 d3.
              unsaveContent U C d1 =
                (Inr ''Content removed from saved items'', d1\<lparr>savedContents := savedContents d\<rparr>) \<and>
              saveContent U C opts3 now3 (d1\<lparr>savedContents := savedContents d\<rparr>)
                = (Inr (''Content saved successfully'', row3), d3) \<and>
              savedContents d3 = savedContents d @ [row3] \<and>
              creditTransactions d3 = creditTransactions d @ [t, t3] \<and>
              tx_user t3 = U \<and> tx_type t3 = ''earn'' \<and> tx_amount t3 = 2 \<and>
              tx_category t3 = ''content_interaction'' \<and>
              current_balance d3 U = js_add (current_balance d1 U) 2)))"
proof (intro conjI impI)
  assume "\<exists>sc \<in> set (savedContents d). sc_user sc = U \<and> sc_content sc = C"
  then have "find_index_of (\<lambda>sc. sc_user sc = U \<and> sc_content sc = C) (savedContents d) \<noteq> None"
    by (simp add: find_index_of_None)
  then obtain i where i: "find_index_of (\<lambda>sc. sc_user sc = U \<and> sc_content sc = C)
      (savedContents d) = Some i"
    by auto
  note e = saveContent_existing [OF assms i, of opts now]
  note p = find_index_of_Some [OF i]
  from e p show "\<exists>i. i < length (savedContents d) \<and>
           sc_user (savedContents d ! i) = U \<and> sc_content (savedContents d ! i) = C \<and>
           saveContent U C opts now d =
             (Inr (''Content updated in saved items'',
                   (savedContents d ! i)
                     \<lparr>sc_folder := (case so_folder opts of None \<Rightarrow> ''General'' | Some f \<Rightarrow> f),
                      sc_tags := (case so_tags opts of None \<Rightarrow> [] | Some ts \<Rightarrow> ts),
                      sc_notes := (case so_notes opts of None \<Rightarrow> [] | Some n \<Rightarrow> n)\<rparr>),
              d\<lparr>savedContents := (savedContents d)
                   [i := (savedContents d ! i)
                     \<lparr>sc_folder := (case so_folder opts of None \<Rightarrow> ''General'' | Some f \<Rightarrow> f),
                      sc_tags := (case so_tags opts of None \<Rightarrow> [] | Some ts \<Rightarrow> ts),
                      sc_notes := (case so_notes opts of None \<Rightarrow> [] | Some n \<Rightarrow> n)\<rparr>]\<rparr>)"
    by blast
  from e show "length (savedContents (snd (saveContent U C opts now d))) = length (savedContents d)"
    by simp
  from e show "creditBalances (snd (saveContent U C opts now d)) = creditBalances d"
    by simp
  from e show "creditTransactions (snd (saveContent U C opts now d)) = creditTransactions d"
    by simp
  from e show "notifications (snd (saveContent U C opts now d)) = notifications d"
    by simp
next
  assume none: "\<forall>sc \<in> set (savedContents d). \<not> (sc_user sc = U \<and> sc_content sc = C)"
  then have n: "find_index_of (\<lambda>sc. sc_user sc = U \<and> sc_content sc = C) (savedContents d) = None"
    by (simp add: find_index_of_None)
  from saveContent_new [OF assms n, of opts now]
  obtain row t d1 where r: "saveContent U C opts now d
        = (Inr (''Content saved successfully'', row), d1)"
    and f: "savedContents d1 = savedContents d @ [row]" "sc_user row = U" "sc_content row = C"
      "creditTransactions d1 = creditTransactions d @ [t]"
      "tx_user t = U" "tx_type t = ''earn''" "tx_amount t = 2"
      "tx_category t = ''content_interaction''"
      "current_balance d1 U = js_add (current_balance d U) 2"
    and c1: "contents d1 = contents d"
    by blast
  from c1 assms have ex1: "findById_content C d1 \<noteq> None"
    by (simp add: findById_content_def)
  from f(1-3) have "find_index_of (\<lambda>sc. sc_user sc = U \<and> sc_content sc = C) (savedContents d1)
      \<noteq> None"
    by (simp add: find_index_of_None)
  then obtain j where j: "find_index_of (\<lambda>sc. sc_user sc = U \<and> sc_content sc = C)
      (savedContents d1) = Some j"
    by auto
  note e = saveContent_existing [OF ex1 j, of opts2 now2]
  from e have again: "creditTransactions (snd (saveContent U C opts2 now2 d1)) = creditTransactions d1"
      "creditBalances (snd (saveContent U C opts2 now2 d1)) = creditBalances d1"
      "length (savedContents (snd (saveContent U C opts2 now2 d1))) = length (savedContents d1)"
    by simp_all
  let ?d2 = "d1\<lparr>savedContents := savedContents d\<rparr>"
  from unsaveContent_last [OF none f(1-3)]
  have un: "unsaveContent U C d1 = (Inr ''Content removed from saved items'', ?d2)" .
  from c1 assms have ex2: "findById_content C ?d2 \<noteq> None"
    by (simp add: findById_content_def)
  from n have n2: "find_index_of (\<lambda>sc. sc_user sc = U \<and> sc_content sc = C) (savedContents ?d2)
      = None"
    by simp
  from saveContent_new [OF ex2 n2, of opts3 now3]
  obtain row3 t3 d3 where r3: "saveContent U C opts3 now3 ?d2
        = (Inr (''Content saved successfully'', row3), d3)"
    and f3: "savedContents d3 = savedContents ?d2 @ [row3]"
      "creditTransactions d3 = creditTransactions ?d2 @ [t3]"
      "tx_user t3 = U" "tx_type t3 = ''earn''" "tx_amount t3 = 2"
      "tx_category t3 = ''content_interaction''"
      "current_balance d3 U = js_add (current_balance ?d2 U) 2"
    by blast
  from f3 f(4) have third: "savedContents d3 = savedContents d @ [row3]"
    "creditTransactions d3 = creditTransactions d @ [t, t3]"
    "current_balance d3 U = js_add (current_balance d1 U) 2"
    by (simp_all add: current_balance_def)
  from un r3 third f3(3-6)
  have cycle: "\<exists>row3 t3 d3.
              unsaveContent U C d1 =
                (Inr ''Content removed from saved items'', d1\<lparr>savedContents := savedContents d\<rparr>) \<and>
              saveContent U C opts3 now3 (d1\<lparr>savedContents := savedContents d\<rparr>)
                = (Inr (''Content saved successfully'', row3), d3) \<and>
              savedContents d3 = savedContents d @ [row3] \<and>
              creditTransactions d3 = creditTransactions d @ [t, t3] \<and>
              tx_user t3 = U \<and> tx_type t3 = ''earn'' \<and> tx_amount t3 = 2 \<and>
              tx_category t3 = ''content_interaction'' \<and>
              current_balance d3 U = js_add (current_balance d1 U) 2"
    by blast
  from r f again cycle
  show "\<exists>row t d1. saveContent U C opts now d
          = (Inr (''Content saved successfully'', row), d1) \<and>
           savedContents d1 = savedContents d @ [row] \<and>
           sc_user row = U \<and> sc_content row = C \<and>
           creditTransactions d1 = creditTransactions d @ [t] \<and>
           tx_user t = U \<and> tx_type t = ''earn'' \<and> tx_amount t = 2 \<and>
           tx_category t = ''content_interaction'' \<and>
           current_balance d1 U = js_add (current_balance d U) 2 \<and>
           creditTransactions (snd (saveContent U C opts2 now2 d1)) = creditTransactions d1 \<and>
           creditBalances (snd (saveContent U C opts2 now2 d1)) = creditBalances d1 \<and>
           length (savedContents (snd (saveContent U C opts2 now2 d1))) = length (savedContents d1) \<and>
           (\<exists>row3 t3 d3.
              unsaveContent U C d1 =
                (Inr ''Content removed from saved items'', d1\<lparr>savedContents := savedContents d\<rparr>) \<and>
              saveContent U C opts3 now3 (d1\<lparr>savedContents := savedContents d\<rparr>)
                = (Inr (''Content saved successfully'', row3), d3) \<and>
              savedContents d3 = savedContents d @ [row3] \<and>
              creditTransactions d3 = creditTransactions d @ [t, t3] \<and>
              tx_user t3 = U \<and> tx_type t3 = ''earn'' \<and> tx_amount t3 = 2 \<and>
              tx_category t3 = ''content_interaction'' \<and>
              current_balance d3 U = js_add (current_balance d1 U) 2)"
    by blast
qed

theorem resave_leaves_ledger_witness:
  "map tx_amount
     (creditTransactions (snd (saveContent 2 1 default_save 7000 after_first_fetch))) = [2] \<and>
   creditTransactions
     (snd (saveContent 2 1 later_save 8000
        (snd (saveContent 2 1 default_save 7000 after_first_fetch))))
     = creditTransactions (snd (saveContent 2 1 default_save 7000 after_first_fetch)) \<and>
   length (savedContents
     (snd (saveContent 2 1 later_save 8000
        (snd (saveContent 2 1 default_save 7000 after_first_fetch))))) = 1"
proof -
  from after_first_fetch_tables obtain c where "contents after_first_fetch = [c]" "c_id c = 1"
    by (cases "contents after_first_fetch") auto
  then have ex: "findById_content 1 after_first_fetch \<noteq> None"
    by (simp add: findById_content_def)
  have none: "\<forall>sc \<in> set (savedContents after_first_fetch). \<not> (sc_user sc = 2 \<and> sc_content sc = 1)"
    using after_first_fetch_tables by simp
  from resave_leaves_ledger [OF ex, of 2 default_save 7000 later_save 8000] none
  obtain row t d1 where r: "saveContent 2 1 default_save 7000 after_first_fetch
        = (Inr (''Content saved successfully'', row), d1)"
    and f: "savedContents d1 = savedContents after_first_fetch @ [row]"
      "sc_user row = 2" "sc_content row = 1"
      "creditTransactions d1 = creditTransactions after_first_fetch @ [t]" "tx_amount t = 2"
    by blast
  from r saveContent_contents [of 2 1 default_save 7000 after_first_fetch] ex
  have ex1: "findById_content 1 d1 \<noteq> None"
    by (simp add: findById_content_def)
  from f have some: "\<exists>sc \<in> set (savedContents d1). sc_user sc = 2 \<and> sc_content sc = 1"
    by simp
  from resave_leaves_ledger [OF ex1, of 2 later_save 8000] some
  have "length (savedContents (snd (saveContent 2 1 later_save 8000 d1))) = length (savedContents d1)"
    "creditTransactions (snd (saveContent 2 1 later_save 8000 d1)) = creditTransactions d1"
    by blast+
  with r f after_first_fetch_tables show ?thesis
    by simp
qed

text \<open>
  The claim as stated fails after a removal: user 2 saves the post, removes it from the
  saved items and saves it again. One row is stored, and the pair has been awarded
  twice: two transactions of 2 credits and a balance of 4.
\<close>

theorem save_unsave_save_counterexample:
  "fst (unsaveContent 2 1 saved_once) = Inr ''Content removed from saved items'' \<and>
   fst (saveContent 2 1 later_save 9000 unsaved)
     = Inr (''Content saved successfully'',
            \<lparr>sc_user = 2, sc_content = 1, sc_folder = ''Later'', sc_tags = [''read''],
             sc_notes = [], sc_savedAt = 9000\<rparr>) \<and>
   length (savedContents saved_again) = 1 \<and>
   map tx_user (creditTransactions saved_again) = [2, 2] \<and>
   map tx_category (creditTransactions saved_again)
     = [''content_interaction'', ''content_interaction''] \<and>
   map tx_amount (creditTransactions saved_again) = [2, 2] \<and>
   current_balance saved_again 2 = 4"
  by (simp add: saved_again_def unsaved_def saved_once_def saveContent_def unsaveContent_def
        awardContentInteractionCredits_def object_prototype_keys_def interaction_rewards_def
        findById_content_def default_save_def later_save_def current_balance_def
        after_first_fetch_def first_fetch_def content_defs ledger_defs round_double_exact
        empty_db_def Let_def)

subsection \<open>The feed\<close>

lemma skip_limit_subset: "skip_limit n l xs = Inr ys \<Longrightarrow> set ys \<subseteq> set xs"
  by (auto simp: skip_limit_def split: if_splits dest: in_set_dropD in_set_takeD)

lemma set_sort_feed: "set (sort_feed sortBy cs) = set cs"
  by (simp add: sort_feed_def)

text \<open>No item is ever flagged as saved: the list of saved ids holds no id.\<close>

lemma getUserSavedContentIds_no_id: "IdString i \<notin> set (getUserSavedContentIds userId d)"
  by (auto simp: getUserSavedContentIds_def Let_def)

lemma ceil_div_ceiling:
  "limit \<noteq> 0 \<Longrightarrow> ceil_div n limit = Num \<lceil>real n / real_of_int limit\<rceil>"
proof -
  have "\<lceil>real n / real_of_int limit\<rceil> = - \<lfloor>- (real_of_int (int n) / real_of_int limit)\<rfloor>"
    by (simp add: ceiling_def)
  also have "- (real_of_int (int n) / real_of_int limit) = real_of_int (- int n) / real_of_int limit"
    by simp
  also have "\<lfloor>real_of_int (- int n) / real_of_int limit\<rfloor> = (- int n) div limit"
    by (rule floor_divide_of_int_eq)
  finally show "limit \<noteq> 0 \<Longrightarrow> ceil_div n limit = Num \<lceil>real n / real_of_int limit\<rceil>"
    by (simp add: ceil_div_def)
qed

lemma getUserFeed_result:
  assumes "getUserFeed tw rd userId opts now d = (Inr f, d')"
  shows "\<exists>u srcs cats.
           users d userId = Some u \<and>
           srcs = (case fo_sources opts of Some s \<Rightarrow> s | None \<Rightarrow> getEnabledSourcesFromPreferences u) \<and>
           cats = (case fo_categories opts of Some c \<Rightarrow> c | None \<Rightarrow> pref_contentCategories u) \<and>
           fst ` set (items f) \<subseteq> set (filter (feed_query srcs cats) (contents d')) \<and>
           pg_total (feed_pagination f) = length (filter (feed_query srcs cats) (contents d')) \<and>
           pg_limit (feed_pagination f)
             = parseInt (case fo_limit opts of None \<Rightarrow> 20 | Some l \<Rightarrow> l) \<and>
           pg_page (feed_pagination f) = parseInt (case fo_page opts of None \<Rightarrow> 1 | Some p \<Rightarrow> p) \<and>
           pg_pages (feed_pagination f)
             = ceil_div (pg_total (feed_pagination f))
                 (case fo_limit opts of None \<Rightarrow> 20 | Some l \<Rightarrow> l)"
proof -
  from assms obtain u where u: "users d userId = Some u"
    by (auto simp: getUserFeed_def Let_def split: option.splits)
  let ?srcs = "case fo_sources opts of Some s \<Rightarrow> s | None \<Rightarrow> getEnabledSourcesFromPreferences u"
  let ?cats = "case fo_categories opts of Some c \<Rightarrow> c | None \<Rightarrow> pref_contentCategories u"
  let ?page = "case fo_page opts of None \<Rightarrow> 1 | Some p \<Rightarrow> p"
  let ?limit = "case fo_limit opts of None \<Rightarrow> 20 | Some l \<Rightarrow> l"
  let ?sortBy = "case fo_sortBy opts of None \<Rightarrow> ''recent'' | Some s \<Rightarrow> s"
  let ?m = "filter (feed_query ?srcs ?cats) (contents d')"
  from assms u obtain feedItems where
    sl: "skip_limit (js_mul (js_sub ?page 1) ?limit) ?limit (sort_feed ?sortBy ?m)
           = Inr feedItems"
    and f: "f = \<lparr>items = map (\<lambda>item. (item, IdString (c_id item)
                                            \<in> set (getUserSavedContentIds userId d')))
                           feedItems,
               feed_pagination = \<lparr>pg_page = parseInt ?page, pg_limit = parseInt ?limit,
                                  pg_total = length ?m,
                                  pg_pages = ceil_div (length ?m) ?limit\<rparr>\<rparr>"
    by (auto simp: getUserFeed_def Let_def split: prod.splits sum.splits if_splits)
  from skip_limit_subset [OF sl] have "set feedItems \<subseteq> set ?m"
    by (simp add: set_sort_feed)
  with f have "fst ` set (items f) \<subseteq> set ?m"
    by (auto simp: image_iff)
  with u f show ?thesis
    by simp
qed

text \<open>
  Claim C8, as amended. Every item that \<open>getUserFeed\<close> returns has
  \<open>isInappropriate = false\<close>; when the caller supplies a non-empty sources filter, the
  source of every returned item is a member of it; and the pagination has
  \<open>pages = ceil(total / limit)\<close> for the limit of the request, which for a limit of \<open>0\<close>
  is the \<^verbatim>\<open>Infinity\<close> or \<^verbatim>\<open>NaN\<close> of the JavaScript quotient. The limit that the
  pagination reports is \<^verbatim>\<open>parseInt(limit)\<close>, the limit itself below \<open>10^21\<close>.
\<close>

theorem feed_filtering:
  assumes "getUserFeed tw rd userId opts now d = (Inr f, d')"
  shows "(\<forall>x \<in> set (items f). isInappropriate (fst x) = False) \<and>
         (\<forall>srcs. fo_sources opts = Some srcs \<and> srcs \<noteq> [] \<longrightarrow>
            (\<forall>x \<in> set (items f). source (fst x) \<in> set srcs)) \<and>
         pg_limit (feed_pagination f) = parseInt (case fo_limit opts of None \<Rightarrow> 20 | Some l \<Rightarrow> l) \<and>
         (\<bar>case fo_limit opts of None \<Rightarrow> 20 | Some l \<Rightarrow> l\<bar> < 10 ^ 21 \<longrightarrow>
            pg_limit (feed_pagination f) = (case fo_limit opts of None \<Rightarrow> 20 | Some l \<Rightarrow> l)) \<and>
         pg_pages (feed_pagination f) =
           (if (case fo_limit opts of None \<Rightarrow> 20 | Some l \<Rightarrow> l) = 0
            then (if pg_total (feed_pagination f) = 0 then NaN else Infinity)
            else Num \<lceil>real (pg_total (feed_pagination f))
                        / real_of_int (case fo_limit opts of None \<Rightarrow> 20 | Some l \<Rightarrow> l)\<rceil>)"
proof -
  let ?limit = "case fo_limit opts of None \<Rightarrow> 20 | Some l \<Rightarrow> l"
  from getUserFeed_result [OF assms]
  obtain u srcs cats where
    srcs: "srcs = (case fo_sources opts of Some s \<Rightarrow> s
                   | None \<Rightarrow> getEnabledSourcesFromPreferences u)"
    and sub: "fst ` set (items f) \<subseteq> set (filter (feed_query srcs cats) (contents d'))"
    and lim: "pg_limit (feed_pagination f) = parseInt ?limit"
    and pages: "pg_pages (feed_pagination f) = ceil_div (pg_total (feed_pagination f)) ?limit"
    by blast
  from sub have q: "\<forall>x \<in> set (items f). feed_query srcs cats (fst x)"
    by auto
  then have a: "\<forall>x \<in> set (items f). isInappropriate (fst x) = False"
    by (simp add: feed_query_def)
  have b: "\<forall>ss. fo_sources opts = Some ss \<and> ss \<noteq> [] \<longrightarrow>
            (\<forall>x \<in> set (items f). source (fst x) \<in> set ss)"
    using q srcs by (auto simp: feed_query_def)
  from lim have lim': "\<bar>?limit\<bar> < 10 ^ 21 \<longrightarrow> pg_limit (feed_pagination f) = ?limit"
    by (simp add: parseInt_exact)
  have c: "pg_pages (feed_pagination f) =
           (if ?limit = 0
            then (if pg_total (feed_pagination f) = 0 then NaN else Infinity)
            else Num \<lceil>real (pg_total (feed_pagination f)) / real_of_int ?limit\<rceil>)"
  proof (cases "?limit = 0")
    case True
    with pages show ?thesis by (simp add: ceil_div_def)
  next
    case False
    with pages ceil_div_ceiling [OF False, of "pg_total (feed_pagination f)"] show ?thesis
      by simp
  qed
  from a b lim lim' c show ?thesis by blast
qed

theorem feed_filtering_witness:
  "(case getUserFeed offline_twitter offline_reddit 1 twitter_only 9000 feed_db of
      (Inl e, d') \<Rightarrow> False
    | (Inr f, d') \<Rightarrow>
        items f \<noteq> [] \<and>
        list_all (\<lambda>x. isInappropriate (fst x) = False \<and> source (fst x) \<in> set [''twitter''])
          (items f) \<and>
        pg_limit (feed_pagination f) = 20 \<and>
        pg_pages (feed_pagination f) = Num 1)"
proof -
  have "\<exists>f d'. getUserFeed offline_twitter offline_reddit 1 twitter_only 9000 feed_db = (Inr f, d')
          \<and> items f \<noteq> [] \<and> pg_total (feed_pagination f) = 1"
    by (simp add: feed_defs content_defs round_double_exact empty_db_def Let_def)
  then obtain f d' where r: "getUserFeed offline_twitter offline_reddit 1 twitter_only 9000 feed_db
        = (Inr f, d')"
    and ne: "items f \<noteq> []" and tot: "pg_total (feed_pagination f) = 1"
    by blast
  have src: "fo_sources twitter_only = Some [''twitter''] \<and> [''twitter''] \<noteq> []"
    by (simp add: twitter_only_def)
  have small: "\<bar>case fo_limit twitter_only of None \<Rightarrow> 20 | Some l \<Rightarrow> l\<bar> < (10::int) ^ 21"
    by (simp add: twitter_only_def)
  from feed_filtering [OF r] src small
  have "\<forall>x \<in> set (items f). isInappropriate (fst x) = False"
    "\<forall>x \<in> set (items f). source (fst x) \<in> set [''twitter'']"
    "pg_limit (feed_pagination f) = (case fo_limit twitter_only of None \<Rightarrow> 20 | Some l \<Rightarrow> l)"
    "pg_pages (feed_pagination f) =
           (if (case fo_limit twitter_only of None \<Rightarrow> 20 | Some l \<Rightarrow> l) = 0
            then (if pg_total (feed_pagination f) = 0 then NaN else Infinity)
            else Num \<lceil>real (pg_total (feed_pagination f))
                        / real_of_int (case fo_limit twitter_only of None \<Rightarrow> 20 | Some l \<Rightarrow> l)\<rceil>)"
    by blast+
  moreover have "\<lceil>(1::real) / 20\<rceil> = 1"
    by (rule ceiling_unique) simp_all
  ultimately show ?thesis
    using r ne tot by (simp add: list_all_iff twitter_only_def)
qed

text \<open>
  The claim as stated fails for the empty filter: \<^verbatim>\<open>sources: []\<close> is truthy, so no
  preference is consulted, and empty, so the query gets no source condition; items of
  every source are returned, none of them a member of the filter.
\<close>

theorem feed_empty_sources_counterexample:
  "fo_sources empty_sources = Some [] \<and>
   (case fst (getUserFeed offline_twitter offline_reddit 1 empty_sources 9000 feed_db) of
      Inl e \<Rightarrow> False
    | Inr f \<Rightarrow> map (\<lambda>x. source (fst x)) (items f) = [''twitter'', ''reddit''])"
  by (simp add: feed_defs content_defs round_double_exact empty_db_def Let_def)

end
